theory Spec2Isabelle
  imports Complex_Main "HOL-Library.Sublist"
begin

section \<open>Conventions\<close>

text \<open>
  The development embeds the scoring core of the Crime-AI backend
  (\<^verbatim>\<open>backend/crime_analyzer.py\<close>, \<^verbatim>\<open>backend/motion_analyzer.py\<close> and the
  detection filter of \<^verbatim>\<open>backend/models.py\<close>).

  Python floats are read as real numbers, without the rounding of IEEE doubles; the
  theft analysis is given a second time with that rounding, for the one value that
  depends on it.
  Python dictionaries with a fixed set of keys become records; a key read with
  \<^verbatim>\<open>.get(key, default)\<close> becomes an optional field. Labels are ASCII strings.
\<close>

section \<open>Strings\<close>

text \<open>\<^verbatim>\<open>str.lower()\<close> on ASCII text.\<close>

definition lower_char :: "char \<Rightarrow> char" where
  "lower_char c =
     (case map_of (zip ''ABCDEFGHIJKLMNOPQRSTUVWXYZ'' ''abcdefghijklmnopqrstuvwxyz'') c of
        Some d \<Rightarrow> d
      | None \<Rightarrow> c)"

definition lower :: "string \<Rightarrow> string" where
  "lower s = map lower_char s"

text \<open>\<^verbatim>\<open>kw in label\<close>: \<open>kw\<close> occurs in \<open>label\<close> as a contiguous substring.\<close>

fun str_in :: "string \<Rightarrow> string \<Rightarrow> bool" where
  "str_in kw [] = (kw = [])"
| "str_in kw (c # cs) = (prefix kw (c # cs) \<or> str_in kw cs)"

text \<open>\<^verbatim>\<open>any(kw in label for kw in kws)\<close>\<close>

definition any_kw_in :: "string list \<Rightarrow> string \<Rightarrow> bool" where
  "any_kw_in kws label = list_ex (\<lambda>kw. str_in kw label) kws"

section \<open>Violence intensity of one action\<close>

definition extreme_violence :: "string list" where
  "extreme_violence = [''shoot'', ''stab'', ''strangle'', ''choke'', ''murder'', ''kill'']"

definition high_violence :: "string list" where
  "high_violence =
     [''punch'', ''kick'', ''beat'', ''hit'', ''slap'', ''headbutt'', ''attack'', ''assault'']"

definition medium_violence :: "string list" where
  "medium_violence = [''fight'', ''wrestle'', ''tackle'', ''shove'', ''push'', ''grab'']"

definition calculate_violence_intensity :: "string \<Rightarrow> real \<Rightarrow> real" where
  "calculate_violence_intensity action_label probability =
     (let action_lower = lower action_label;
          base_score = probability
      in if any_kw_in extreme_violence action_lower then min 1.0 (base_score * 2.0)
         else if any_kw_in high_violence action_lower then min 1.0 (base_score * 1.5)
         else if any_kw_in medium_violence action_lower then min 1.0 (base_score * 1.2)
         else base_score * 0.8)"

section \<open>Input data\<close>

text \<open>
  A bounding box is the list \<^verbatim>\<open>[x1, y1, x2, y2]\<close>. Of a detected object the scoring
  code reads \<^verbatim>\<open>label\<close>, \<^verbatim>\<open>conf\<close> and \<^verbatim>\<open>bbox\<close>.
\<close>

record box =
  x1 :: real
  y1 :: real
  x2 :: real
  y2 :: real

record detected_object =
  label :: string
  conf :: real
  bbox :: box

text \<open>
  A frame of detections. \<^verbatim>\<open>frame_index\<close> and \<^verbatim>\<open>objects\<close> are read with
  \<^verbatim>\<open>.get(key, default)\<close>, \<^verbatim>\<open>frame\<close> with \<^verbatim>\<open>.get(key)\<close>.
\<close>

record frame_info =
  frame :: "string option"
  frame_index :: "int option"
  objects :: "detected_object list option"

definition get_frame_index :: "frame_info \<Rightarrow> int" where
  "get_frame_index f = (case frame_index f of Some i \<Rightarrow> i | None \<Rightarrow> 0)"

definition get_objects :: "frame_info \<Rightarrow> detected_object list" where
  "get_objects f = (case objects f of Some os \<Rightarrow> os | None \<Rightarrow> [])"

text \<open>An action prediction (keys \<^verbatim>\<open>label\<close> and \<^verbatim>\<open>prob\<close>) and a clip of them.\<close>

record action =
  action_label :: string
  prob :: real

record clip =
  clip_index :: "int option"
  clip_type :: "string option"
  top_actions :: "action list option"

definition get_top_actions :: "clip \<Rightarrow> action list" where
  "get_top_actions c = (case top_actions c of Some as \<Rightarrow> as | None \<Rightarrow> [])"

text \<open>
  The double loop \<^verbatim>\<open>for clip in actions: for action in clip.get("top_actions", [])\<close>
  visits these pairs in this order.
\<close>

definition clip_actions :: "clip list \<Rightarrow> (clip \<times> action) list" where
  "clip_actions actions = concat (map (\<lambda>c. map (\<lambda>a. (c, a)) (get_top_actions c)) actions)"

definition is_person :: "detected_object \<Rightarrow> bool" where
  "is_person obj = (lower (label obj) = ''person'')"

section \<open>Keyword tables of \<^verbatim>\<open>CrimePatternAnalyzer\<close>\<close>

definition severity_weights :: "(string \<times> real) list" where
  "severity_weights =
     [(''weapon_threat'', 1.0),
      (''violent_assault'', 0.95),
      (''armed_robbery'', 0.90),
      (''physical_fight'', 0.85),
      (''theft_in_progress'', 0.80),
      (''vandalism'', 0.70),
      (''suspicious_activity'', 0.60),
      (''trespassing'', 0.50)]"

text \<open>\<^verbatim>\<open>self.severity_weights.get(t, 0.5)\<close>\<close>

definition severity_weight :: "string \<Rightarrow> real" where
  "severity_weight t = (case map_of severity_weights t of Some w \<Rightarrow> w | None \<Rightarrow> 0.5)"

definition violence_keywords :: "string list" where
  "violence_keywords =
     [''punch'', ''hit'', ''kick'', ''beat'', ''attack'', ''assault'', ''fight'',
      ''slap'', ''strangle'', ''choke'', ''tackle'', ''headbutt'', ''combat'']"

definition weapon_keywords :: "string list" where
  "weapon_keywords =
     [''shoot'', ''stab'', ''aim'', ''point'', ''wield'', ''brandish'',
      ''threaten'', ''fire'', ''swing'', ''strike with'']"

definition theft_keywords :: "string list" where
  "theft_keywords =
     [''steal'', ''snatch'', ''grab'', ''rob'', ''shoplift'', ''pickpocket'',
      ''burglar'', ''loot'', ''pilfer'', ''take'', ''swipe'']"

definition suspicious_keywords :: "string list" where
  "suspicious_keywords =
     [''lurk'', ''sneak'', ''hide'', ''creep'', ''stalk'', ''prowl'', ''loiter'']"

definition weapon_labels :: "string list" where
  "weapon_labels =
     [''knife'', ''gun'', ''pistol'', ''rifle'', ''weapon'', ''firearm'',
      ''baseball bat'', ''bat'', ''hammer'', ''axe'', ''crowbar'', ''stick'',
      ''scissors'', ''sword'', ''machete'', ''blade'', ''razor'',
      ''bottle'', ''chain'', ''pipe'', ''wrench'', ''club'', ''baton'']"

definition is_weapon :: "string \<Rightarrow> bool" where
  "is_weapon l = any_kw_in weapon_labels (lower l)"

section \<open>Weapon threat analysis\<close>

text \<open>
  The result dictionaries of the analyzers become records. Their \<^verbatim>\<open>assessment\<close>,
  \<^verbatim>\<open>details\<close> and \<^verbatim>\<open>recommendation\<close> texts are display strings chosen from the
  fields modelled here; they are left out.
\<close>

record weapon_frame =
  wf_frame_index :: int
  wf_frame_name :: "string option"
  weapon_count :: nat
  person_count :: nat
  weapons :: "(string \<times> real) list"

text \<open>
  The running minimum of a proximity entry starts at \<^verbatim>\<open>float('inf')\<close>, written
  \<open>None\<close>.
\<close>

record proximity =
  px_frame_index :: int
  distance :: "real option"
  weapon_type :: string

record weapon_action =
  wa_action :: string
  wa_confidence :: real
  wa_clip_index :: "int option"
  wa_clip_type :: "string option"

record weapon_threat =
  wt_detected :: bool
  threat_level :: string
  weapon_frames :: "weapon_frame list"
  proximity_alerts :: "proximity list"
  weapon_actions :: "weapon_action list"

definition calculate_bbox_distance :: "box \<Rightarrow> box \<Rightarrow> real" where
  "calculate_bbox_distance bbox1 bbox2 =
     (let c1x = (x1 bbox1 + x2 bbox1) / 2; c1y = (y1 bbox1 + y2 bbox1) / 2;
          c2x = (x1 bbox2 + x2 bbox2) / 2; c2y = (y1 bbox2 + y2 bbox2) / 2
      in sqrt ((c1x - c2x)\<^sup>2 + (c1y - c2y)\<^sup>2))"

text \<open>\<^verbatim>\<open>min(min_distance, dist)\<close> and \<^verbatim>\<open>p["distance"] < t\<close> with infinity as \<open>None\<close>.\<close>

fun min_inf :: "real option \<Rightarrow> real \<Rightarrow> real option" where
  "min_inf None d = Some d"
| "min_inf (Some m) d = Some (min m d)"

fun lt_inf :: "real option \<Rightarrow> real \<Rightarrow> bool" where
  "lt_inf None t = False"
| "lt_inf (Some d) t = (d < t)"

definition min_distance_to :: "detected_object list \<Rightarrow> detected_object \<Rightarrow> real option" where
  "min_distance_to persons weapon =
     foldl (\<lambda>m person. min_inf m (calculate_bbox_distance (bbox weapon) (bbox person)))
       None persons"

text \<open>One iteration of the loop over \<^verbatim>\<open>detections\<close>: what it appends to each list.\<close>

definition frame_weapons :: "frame_info \<Rightarrow> detected_object list" where
  "frame_weapons f = filter (\<lambda>obj. is_weapon (label obj)) (get_objects f)"

definition frame_persons :: "frame_info \<Rightarrow> detected_object list" where
  "frame_persons f = filter is_person (get_objects f)"

definition weapon_frames_of :: "frame_info \<Rightarrow> weapon_frame list" where
  "weapon_frames_of f =
     (let ws = frame_weapons f; ps = frame_persons f
      in if ws \<noteq> [] then
           [\<lparr>wf_frame_index = get_frame_index f, wf_frame_name = frame f,
             weapon_count = length ws, person_count = length ps,
             weapons = map (\<lambda>w. (label w, conf w)) ws\<rparr>]
         else [])"

definition proximity_of :: "frame_info \<Rightarrow> proximity list" where
  "proximity_of f =
     (let ws = frame_weapons f; ps = frame_persons f
      in if ws \<noteq> [] \<and> ps \<noteq> [] then
           map (\<lambda>w. \<lparr>px_frame_index = get_frame_index f,
                      distance = min_distance_to ps w,
                      weapon_type = label w\<rparr>) ws
         else [])"

definition weapon_actions_of :: "clip list \<Rightarrow> weapon_action list" where
  "weapon_actions_of actions =
     map (\<lambda>(c, a). \<lparr>wa_action = action_label a, wa_confidence = prob a,
                     wa_clip_index = clip_index c, wa_clip_type = clip_type c\<rparr>)
       (filter (\<lambda>(c, a). any_kw_in weapon_keywords (lower (action_label a)))
          (clip_actions actions))"

definition calculate_threat_level ::
  "nat \<Rightarrow> proximity list \<Rightarrow> weapon_action list \<Rightarrow> string" where
  "calculate_threat_level weapon_frame_count proximity_data wactions =
     (if weapon_frame_count = 0 then ''none''
      else
        let close_proximity = length (filter (\<lambda>p. lt_inf (distance p) 300) proximity_data);
            moderate_proximity = length (filter (\<lambda>p. lt_inf (distance p) 500) proximity_data)
        in if close_proximity > 0 \<or> length wactions > 0 then ''critical''
           else if moderate_proximity > 0 \<or> weapon_frame_count > 2 then ''high''
           else ''medium'')"

definition analyze_weapon_threat :: "frame_info list \<Rightarrow> clip list \<Rightarrow> weapon_threat" where
  "analyze_weapon_threat detections actions =
     (let wframes = concat (map weapon_frames_of detections);
          person_weapon_proximity = concat (map proximity_of detections);
          wactions = weapon_actions_of actions;
          level = calculate_threat_level (length wframes) person_weapon_proximity wactions
      in \<lparr>wt_detected = length wframes > 0,
          threat_level = level,
          weapon_frames = wframes,
          proximity_alerts = filter (\<lambda>p. lt_inf (distance p) 200) person_weapon_proximity,
          weapon_actions = wactions\<rparr>)"

section \<open>Violence analysis\<close>

record violent_action =
  va_action :: string
  va_confidence :: real
  intensity :: real
  va_clip_index :: "int option"
  va_clip_type :: "string option"

record violence =
  v_detected :: bool
  violence_score :: real
  intensity_level :: string
  violent_actions :: "violent_action list"
  multi_person_frame_ratio :: real

text \<open>\<^verbatim>\<open>np.mean\<close> of a list that the callers have checked to be non-empty.\<close>

definition mean :: "real list \<Rightarrow> real" where
  "mean xs = sum_list xs / real (length xs)"

definition violent_actions_of :: "clip list \<Rightarrow> violent_action list" where
  "violent_actions_of actions =
     map (\<lambda>(c, a). \<lparr>va_action = action_label a, va_confidence = prob a,
                     intensity = calculate_violence_intensity (lower (action_label a)) (prob a),
                     va_clip_index = clip_index c, va_clip_type = clip_type c\<rparr>)
       (filter (\<lambda>(c, a). any_kw_in violence_keywords (lower (action_label a)))
          (clip_actions actions))"

definition person_count_of :: "frame_info \<Rightarrow> nat" where
  "person_count_of f = length (filter is_person (get_objects f))"

definition calculate_violence_score :: "violent_action list \<Rightarrow> nat \<Rightarrow> nat \<Rightarrow> real" where
  "calculate_violence_score vactions multi_person_frames total_frames =
     (if vactions = [] then 0.0
      else
        let avg_intensity = mean (map intensity vactions);
            action_count_factor = min 1.0 (real (length vactions) * 0.2);
            multi_person_factor = real multi_person_frames / real (max 1 total_frames)
        in min 1.0 (avg_intensity * 0.5 + action_count_factor * 0.3 + multi_person_factor * 0.2))"

definition get_intensity_level :: "real \<Rightarrow> string" where
  "get_intensity_level score =
     (if score > 0.6 then ''extreme''
      else if score > 0.35 then ''high''
      else if score > 0.15 then ''moderate''
      else ''low'')"

text \<open>
  \<^verbatim>\<open>sorted(xs, key=..., reverse=True)\<close>: descending, and stable: equal keys keep the
  order they had in \<open>xs\<close>.
\<close>

definition sorted_desc :: "('a \<Rightarrow> real) \<Rightarrow> 'a list \<Rightarrow> 'a list" where
  "sorted_desc k xs = rev (sort_key k (rev xs))"

definition analyze_violence_intensity :: "clip list \<Rightarrow> frame_info list \<Rightarrow> violence" where
  "analyze_violence_intensity actions detections =
     (let vactions = violent_actions_of actions;
          multi_person_frames = length (filter (\<lambda>f. person_count_of f \<ge> 2) detections);
          score = calculate_violence_score vactions multi_person_frames (length detections)
      in \<lparr>v_detected = length vactions > 0,
          violence_score = score,
          intensity_level = get_intensity_level score,
          violent_actions = sorted_desc intensity vactions,
          multi_person_frame_ratio =
            real multi_person_frames / real (max 1 (length detections))\<rparr>)"

section \<open>Theft analysis\<close>

record disappearance =
  item :: string
  first_seen :: int
  last_seen :: int
  duration_ratio :: real
  suspicion_score :: real

record theft_action =
  ta_action :: string
  ta_confidence :: real
  ta_clip_index :: "int option"

record theft =
  t_detected :: bool
  theft_probability :: real
  valuable_disappearances :: "disappearance list"
  theft_actions :: "theft_action list"

definition valuable_labels :: "string list" where
  "valuable_labels =
     [''handbag'', ''backpack'', ''suitcase'', ''cell phone'', ''laptop'',
      ''wallet'', ''purse'', ''briefcase'', ''watch'', ''bag'']"

text \<open>
  \<^verbatim>\<open>valuable_timeline\<close> is a dictionary from a label to the list of frame indices where
  it was seen. Python dictionaries iterate in insertion order, so it is an association
  list: a new label goes to the end, a known label has the index appended in place.
\<close>

fun timeline_append :: "string \<Rightarrow> int \<Rightarrow> (string \<times> int list) list \<Rightarrow> (string \<times> int list) list" where
  "timeline_append l i [] = [(l, [i])]"
| "timeline_append l i ((k, v) # rest) =
     (if k = l then (k, v @ [i]) # rest else (k, v) # timeline_append l i rest)"

definition timeline_frame :: "(string \<times> int list) list \<Rightarrow> frame_info \<Rightarrow> (string \<times> int list) list" where
  "timeline_frame timeline f =
     foldl (\<lambda>t obj. let l = lower (label obj)
                     in if l \<in> set valuable_labels then timeline_append l (get_frame_index f) t
                        else t)
       timeline (get_objects f)"

definition valuable_timeline :: "frame_info list \<Rightarrow> (string \<times> int list) list" where
  "valuable_timeline detections = foldl timeline_frame [] detections"

text \<open>
  The body of the loop over the timeline. \<^verbatim>\<open>min(frames)\<close> and \<^verbatim>\<open>max(frames)\<close> are
  taken of a list with at least two elements.
\<close>

definition disappearance_of :: "nat \<Rightarrow> string \<times> int list \<Rightarrow> disappearance list" where
  "disappearance_of total_frames lf =
     (case lf of (l, frames) \<Rightarrow>
        if real (length frames) < real total_frames * 0.3 \<and> length frames \<ge> 2 then
          let first = Min (set frames);
              last = Max (set frames);
              duration = last - first
          in if real_of_int duration < real total_frames * 0.5 then
               [\<lparr>item = l, first_seen = first, last_seen = last,
                 duration_ratio = real_of_int duration / real total_frames,
                 suspicion_score =
                   (if real_of_int duration < real total_frames * 0.2 then 0.8 else 0.6)\<rparr>]
             else []
        else [])"

definition theft_actions_of :: "clip list \<Rightarrow> theft_action list" where
  "theft_actions_of actions =
     map (\<lambda>(c, a). \<lparr>ta_action = action_label a, ta_confidence = prob a,
                     ta_clip_index = clip_index c\<rparr>)
       (filter (\<lambda>(c, a). any_kw_in theft_keywords (lower (action_label a)))
          (clip_actions actions))"

text \<open>\<^verbatim>\<open>max(1, len(xs) or 1)\<close>\<close>

definition len_or_1 :: "'a list \<Rightarrow> nat" where
  "len_or_1 xs = max 1 (if length xs \<noteq> 0 then length xs else 1)"

definition calculate_theft_probability :: "disappearance list \<Rightarrow> theft_action list \<Rightarrow> real" where
  "calculate_theft_probability disappearances tactions =
     (if disappearances = [] \<and> tactions = [] then 0.0
      else
        let disappearance_score =
              sum_list (map suspicion_score disappearances) / real (len_or_1 disappearances);
            action_score = sum_list (map ta_confidence tactions) / real (len_or_1 tactions)
        in if disappearances \<noteq> [] \<and> tactions \<noteq> [] then
             min 1.0 ((disappearance_score + action_score) / 2 * 1.2)
           else if disappearances \<noteq> [] then disappearance_score * 0.8
           else action_score * 0.7)"

definition analyze_theft_patterns :: "frame_info list \<Rightarrow> clip list \<Rightarrow> theft" where
  "analyze_theft_patterns detections actions =
     (let total_frames = length detections;
          valuable_disappearance =
            concat (map (disappearance_of total_frames) (valuable_timeline detections));
          tactions = theft_actions_of actions;
          probability = calculate_theft_probability valuable_disappearance tactions
      in \<lparr>t_detected = length valuable_disappearance > 0 \<or> length tactions > 0,
          theft_probability = probability,
          valuable_disappearances = valuable_disappearance,
          theft_actions = tactions\<rparr>)"

section \<open>Suspicious behaviour analysis\<close>

record pattern =
  pattern_type :: string
  pattern_action :: "string option"
  pattern_confidence :: real
  pattern_clip_index :: "int option"

record suspicious =
  s_detected :: bool
  s_suspicion_score :: real
  patterns :: "pattern list"

definition loitering_patterns :: "frame_info list \<Rightarrow> pattern list" where
  "loitering_patterns detections =
     (let total_frames = length detections;
          person_presence = length (filter (\<lambda>f. list_ex is_person (get_objects f)) detections);
          person_ratio = real person_presence / real (max 1 total_frames)
      in if person_ratio > 0.8 then
           [\<lparr>pattern_type = ''possible_loitering'', pattern_action = None,
             pattern_confidence = min 0.7 (person_ratio * 0.8), pattern_clip_index = None\<rparr>]
         else [])"

definition suspicious_action_patterns :: "clip list \<Rightarrow> pattern list" where
  "suspicious_action_patterns actions =
     map (\<lambda>(c, a). \<lparr>pattern_type = ''suspicious_action'', pattern_action = Some (action_label a),
                     pattern_confidence = prob a, pattern_clip_index = clip_index c\<rparr>)
       (filter (\<lambda>(c, a). any_kw_in suspicious_keywords (lower (action_label a)))
          (clip_actions actions))"

definition group_loitering_patterns :: "frame_info list \<Rightarrow> pattern list" where
  "group_loitering_patterns detections =
     (let total_frames = length detections;
          multi_person_static_frames =
            length (filter (\<lambda>f. person_count_of f \<ge> 3) detections)
      in if real multi_person_static_frames > real total_frames * 0.5 then
           [\<lparr>pattern_type = ''group_loitering'', pattern_action = None,
             pattern_confidence = 0.65, pattern_clip_index = None\<rparr>]
         else [])"

definition analyze_suspicious_behavior :: "frame_info list \<Rightarrow> clip list \<Rightarrow> suspicious" where
  "analyze_suspicious_behavior detections actions =
     (let suspicious_patterns =
            loitering_patterns detections @ suspicious_action_patterns actions
              @ group_loitering_patterns detections;
          score = real (length suspicious_patterns) * 0.25
      in \<lparr>s_detected = length suspicious_patterns > 0,
          s_suspicion_score = min 1.0 score,
          patterns = suspicious_patterns\<rparr>)"

section \<open>The crime report\<close>

record indicator =
  ind_type :: string
  ind_severity :: string
  ind_confidence :: real

record crime_report =
  overall_severity :: string
  crime_detected :: bool
  crime_indicators :: "indicator list"
  weapon_threat_analysis :: weapon_threat
  violence_analysis :: violence
  theft_analysis :: theft
  suspicious_behavior_analysis :: suspicious

text \<open>The four conditional appends to \<^verbatim>\<open>crime_indicators\<close>, in the order of the source.\<close>

definition weapon_indicator :: "weapon_threat \<Rightarrow> indicator list" where
  "weapon_indicator w =
     (if wt_detected w then
        [\<lparr>ind_type = ''weapon_threat'', ind_severity = threat_level w, ind_confidence = 0.9\<rparr>]
      else [])"

definition violence_indicator :: "violence \<Rightarrow> indicator list" where
  "violence_indicator v =
     (if v_detected v \<and> violence_score v > 0.5 then
        [\<lparr>ind_type = ''violent_assault'', ind_severity = intensity_level v,
          ind_confidence = violence_score v\<rparr>]
      else [])"

definition theft_indicator :: "theft \<Rightarrow> indicator list" where
  "theft_indicator t =
     (if t_detected t \<and> theft_probability t > 0.4 then
        [\<lparr>ind_type = ''theft_or_robbery'',
          ind_severity = (if theft_probability t > 0.7 then ''high'' else ''medium''),
          ind_confidence = theft_probability t\<rparr>]
      else [])"

definition suspicious_indicator :: "suspicious \<Rightarrow> indicator list" where
  "suspicious_indicator s =
     (if s_detected s \<and> s_suspicion_score s > 0.5 then
        [\<lparr>ind_type = ''suspicious_activity'', ind_severity = ''medium'',
          ind_confidence = s_suspicion_score s\<rparr>]
      else [])"

text \<open>
  \<^verbatim>\<open>ind.get("confidence", 0) * self.severity_weights.get(ind["type"], 0.5)\<close>; every
  indicator built above has the key \<^verbatim>\<open>confidence\<close>.
\<close>

definition weighted_confidence :: "indicator \<Rightarrow> real" where
  "weighted_confidence ind = ind_confidence ind * severity_weight (ind_type ind)"

text \<open>
  The block "Determine overall severity". Python's \<^verbatim>\<open>max\<close> walks the values and keeps
  the largest seen so far; it is called on a non-empty list only.
\<close>

definition determine_overall_severity :: "indicator list \<Rightarrow> string" where
  "determine_overall_severity inds =
     (case map weighted_confidence inds of
        [] \<Rightarrow> ''safe''
      | v # vs \<Rightarrow>
          let max_severity = foldl max v vs
          in if max_severity > 0.8 then ''critical''
             else if max_severity > 0.6 then ''high''
             else if max_severity > 0.4 then ''medium''
             else ''low'')"

definition generate_crime_report :: "frame_info list \<Rightarrow> clip list \<Rightarrow> crime_report" where
  "generate_crime_report detections actions =
     (let weapon = analyze_weapon_threat detections actions;
          viol = analyze_violence_intensity actions detections;
          thf = analyze_theft_patterns detections actions;
          susp = analyze_suspicious_behavior detections actions;
          inds = weapon_indicator weapon @ violence_indicator viol
                   @ theft_indicator thf @ suspicious_indicator susp
      in \<lparr>overall_severity = determine_overall_severity inds,
          crime_detected = length inds > 0,
          crime_indicators = inds,
          weapon_threat_analysis = weapon,
          violence_analysis = viol,
          theft_analysis = thf,
          suspicious_behavior_analysis = susp\<rparr>)"

section \<open>Detection filter\<close>







definition area :: "box \<Rightarrow> real" where
  "area b = (x2 b - x1 b) * (y2 b - y1 b)"

definition inter :: "box \<Rightarrow> box \<Rightarrow> real" where
  "inter b c =
     (let xx1 = max (x1 b) (x1 c); yy1 = max (y1 b) (y1 c);
          xx2 = min (x2 b) (x2 c); yy2 = min (y2 b) (y2 c);
          w = max 0.0 (xx2 - xx1); h = max 0.0 (yy2 - yy1)
      in w * h)"

text \<open>
  \<^verbatim>\<open>iou = inter / (areas[i] + areas[j] - inter)\<close> on numpy arrays. A zero denominator
  does not raise: the quotient is \<^verbatim>\<open>nan\<close> or \<^verbatim>\<open>inf\<close>, written \<open>None\<close>, and the
  test \<^verbatim>\<open>iou <= iou_threshold\<close> is false on both.
\<close>

definition iou :: "box \<Rightarrow> box \<Rightarrow> real option" where
  "iou b c =
     (let d = area b + area c - inter b c
      in if d = 0 then None else Some (inter b c / d))"

definition iou_le :: "box \<Rightarrow> box \<Rightarrow> real \<Rightarrow> bool" where
  "iou_le b c t = (case iou b c of None \<Rightarrow> False | Some v \<Rightarrow> v \<le> t)"

text \<open>
  The \<^verbatim>\<open>while len(order) > 0\<close> loop on the list of indices still in play: the head is
  kept, and of the others those stay whose overlap with it is at most the threshold.
\<close>

function nms_loop :: "detected_object list \<Rightarrow> real \<Rightarrow> nat list \<Rightarrow> nat list" where
  "nms_loop objs t [] = []"
| "nms_loop objs t (i # rest) =
     (if rest = [] then [i]
      else i # nms_loop objs t
                 (filter (\<lambda>j. iou_le (bbox (objs ! i)) (bbox (objs ! j)) t) rest))"
  by pat_completeness auto
termination
  by (relation "measure (\<lambda>(objs, t, order). length order)")
    (auto simp: less_Suc_eq_le)




section \<open>Motion analysis\<close>

record sudden_movement =
  sm_frame_index :: nat
  motion_intensity :: real

record motion_pattern =
  category :: string
  crime_relevance :: string
  mp_confidence :: real

record chase_sequence =
  start_frame :: nat
  duration_frames :: nat
  avg_intensity :: real

record motion_report =
  average_motion :: real
  max_motion :: real
  motion_variance :: real
  motion_pattern_of :: motion_pattern
  sudden_movements :: "sudden_movement list"
  chase_sequences :: "chase_sequence list"
  frames_analyzed :: nat

text \<open>
  \<^verbatim>\<open>{"analyzed": False, "reason": ...}\<close> or \<^verbatim>\<open>{"analyzed": True, ...}\<close>.
\<close>

datatype motion_result = Not_Analyzed string | Analyzed motion_report

fun analyzed :: "motion_result \<Rightarrow> bool" where
  "analyzed (Not_Analyzed reason) = False"
| "analyzed (Analyzed r) = True"

definition classify_motion_pattern :: "real \<Rightarrow> real \<Rightarrow> sudden_movement list \<Rightarrow> motion_pattern" where
  "classify_motion_pattern avg_motion var sudden =
     (if length sudden > 3 then
        (if avg_motion > 25 then
           \<lparr>category = ''chaotic_high_motion'', crime_relevance = ''high'', mp_confidence = 0.85\<rparr>
         else
           \<lparr>category = ''erratic_movement'', crime_relevance = ''medium'', mp_confidence = 0.70\<rparr>)
      else if avg_motion > 30 then
        \<lparr>category = ''high_activity'', crime_relevance = ''medium'', mp_confidence = 0.75\<rparr>
      else if avg_motion > 15 then
        \<lparr>category = ''moderate_activity'', crime_relevance = ''low'', mp_confidence = 0.50\<rparr>
      else if var > 50 then
        \<lparr>category = ''intermittent_activity'', crime_relevance = ''medium'', mp_confidence = 0.65\<rparr>
      else
        \<lparr>category = ''low_activity'', crime_relevance = ''low'', mp_confidence = 0.40\<rparr>)"

text \<open>
  The state of the loop of \<^verbatim>\<open>_detect_chase_sequences\<close> and one iteration of it on
  \<^verbatim>\<open>(idx, score)\<close>. The mean is taken of the slice
  \<^verbatim>\<open>motion_scores[chase_start:chase_start + chase_duration]\<close>.
\<close>

record chase_state =
  found :: "chase_sequence list"
  in_chase :: bool
  chase_start :: nat
  chase_duration :: nat

definition chase_entry :: "real list \<Rightarrow> nat \<Rightarrow> nat \<Rightarrow> chase_sequence" where
  "chase_entry motion_scores start dur =
     \<lparr>start_frame = start, duration_frames = dur,
      avg_intensity = mean (take dur (drop start motion_scores))\<rparr>"

definition close_chase :: "real list \<Rightarrow> chase_state \<Rightarrow> chase_sequence list" where
  "close_chase motion_scores st =
     (if in_chase st \<and> chase_duration st \<ge> 3 then
        found st @ [chase_entry motion_scores (chase_start st) (chase_duration st)]
      else found st)"

definition chase_step :: "real list \<Rightarrow> chase_state \<Rightarrow> nat \<times> real \<Rightarrow> chase_state" where
  "chase_step motion_scores st p =
     (case p of (idx, score) \<Rightarrow>
        if score > 35 then
          (if \<not> in_chase st then st\<lparr>in_chase := True, chase_start := idx, chase_duration := 1\<rparr>
           else st\<lparr>chase_duration := chase_duration st + 1\<rparr>)
        else
          st\<lparr>found := close_chase motion_scores st, in_chase := False, chase_duration := 0\<rparr>)"

definition detect_chase_sequences :: "real list \<Rightarrow> chase_sequence list" where
  "detect_chase_sequences motion_scores =
     close_chase motion_scores
       (foldl (chase_step motion_scores)
          \<lparr>found = [], in_chase = False, chase_start = 0, chase_duration = 0\<rparr>
          (enumerate 0 motion_scores))"

text \<open>
  The frame loop of \<^verbatim>\<open>analyze_motion_patterns\<close>. Reading and scoring images is OpenCV's
  work and is a parameter here: \<open>imread p\<close> is the resized grayscale image of the file
  \<open>p\<close>, or \<open>None\<close> when the file cannot be read or reading it raises (the loop goes on
  to the next frame in both cases), and \<open>motion_score\<close> is \<^verbatim>\<open>_calculate_motion_score\<close>.
  The state is the previous image, the scores and the sudden movements so far.
\<close>

fun motion_loop ::
  "('p \<Rightarrow> 'img option) \<Rightarrow> ('img \<Rightarrow> 'img \<Rightarrow> real) \<Rightarrow> (nat \<times> 'p) list
     \<Rightarrow> 'img option \<Rightarrow> real list \<Rightarrow> sudden_movement list
     \<Rightarrow> real list \<times> sudden_movement list" where
  "motion_loop imread motion_score [] prev scores sudden = (scores, sudden)"
| "motion_loop imread motion_score ((idx, frame_path) # rest) prev scores sudden =
     (case imread frame_path of
        None \<Rightarrow> motion_loop imread motion_score rest prev scores sudden
      | Some current \<Rightarrow>
          (case prev of
             None \<Rightarrow> motion_loop imread motion_score rest (Some current) scores sudden
           | Some previous \<Rightarrow>
               let s = motion_score previous current
               in motion_loop imread motion_score rest (Some current) (scores @ [s])
                    (if s > 50.0
                     then sudden @ [\<lparr>sm_frame_index = idx, motion_intensity = s\<rparr>]
                     else sudden)))"

text \<open>\<^verbatim>\<open>np.var\<close>: the mean of the squared deviations from the mean.\<close>

definition variance :: "real list \<Rightarrow> real" where
  "variance xs = mean (map (\<lambda>x. (x - mean xs)\<^sup>2) xs)"

definition analyze_motion_patterns ::
  "('p \<Rightarrow> 'img option) \<Rightarrow> ('img \<Rightarrow> 'img \<Rightarrow> real) \<Rightarrow> 'p list \<Rightarrow> motion_result" where
  "analyze_motion_patterns imread motion_score frames =
     (if length frames < 2 then Not_Analyzed ''Insufficient frames''
      else
        case motion_loop imread motion_score (enumerate 0 (take 50 frames)) None [] [] of
          (motion_scores, sudden) \<Rightarrow>
            if motion_scores = [] then Not_Analyzed ''No motion data''
            else
              let avg_motion = mean motion_scores;
                  max_m = Max (set motion_scores);
                  var = variance motion_scores
              in Analyzed
                   \<lparr>average_motion = avg_motion,
                    max_motion = max_m,
                    motion_variance = var,
                    motion_pattern_of = classify_motion_pattern avg_motion var sudden,
                    sudden_movements = sudden,
                    chase_sequences = detect_chase_sequences motion_scores,
                    frames_analyzed = length motion_scores\<rparr>)"

section \<open>Action recognition: the frame-count guards\<close>

text \<open>
  \<^verbatim>\<open>run_action_recognition\<close> returns the empty list of clips for no frames and for
  fewer than 8 frames. What it does with 8 frames or more (cutting clips, running
  MoViNet, and returning the empty list when anything in that raises) is the parameter
  \<open>recognize_clips\<close>; \<open>name\<close> is the key \<^verbatim>\<open>p.name\<close> of the chronological sort.
\<close>

definition run_action_recognition ::
  "('p list \<Rightarrow> clip list) \<Rightarrow> ('p \<Rightarrow> 'k::linorder) \<Rightarrow> 'p list \<Rightarrow> clip list" where
  "run_action_recognition recognize_clips name frames =
     (if frames = [] then []
      else
        let frames_sorted = sort_key name frames;
            num_total_frames = length frames_sorted
        in if num_total_frames < 8 then [] else recognize_clips frames_sorted)"

section \<open>Double precision on the theft path\<close>

text \<open>
  The definitions above read Python's floats as real numbers. Where a claim depends on
  the last bit of a result, the arithmetic is read as IEEE 754 binary64 instead: every
  literal and every operation is rounded to the nearest number with a 53-bit
  significand, ties to the even one. Overflow to infinity is not modelled; the numbers
  on this path are far from it.
\<close>

definition round_half_even :: "real \<Rightarrow> int" where
  "round_half_even x =
     (let f = \<lfloor>x\<rfloor>; r = x - of_int f
      in if r < 1 / 2 then f
         else if r > 1 / 2 then f + 1
         else if even f then f else f + 1)"

text \<open>
  The binary exponent \<open>e\<close> of a number, \<open>2 ^ e \<le> \<bar>x\<bar> < 2 ^ (e + 1)\<close>: count the
  halvings that bring a number of at least 1 below 2, or the doublings that bring a
  smaller one up to 1.
\<close>

fun halvings :: "nat \<Rightarrow> real \<Rightarrow> nat" where
  "halvings 0 x = 0"
| "halvings (Suc n) x = (if x < 2 then 0 else Suc (halvings n (x / 2)))"

fun doublings :: "nat \<Rightarrow> real \<Rightarrow> nat" where
  "doublings 0 x = 0"
| "doublings (Suc n) x = (if 1 \<le> x then 0 else Suc (doublings n (2 * x)))"

definition binary_exponent :: "real \<Rightarrow> int" where
  "binary_exponent x =
     (if 1 \<le> \<bar>x\<bar> then int (halvings 1023 \<bar>x\<bar>) else - int (doublings 1074 \<bar>x\<bar>))"

text \<open>
  The double nearest to \<open>x\<close>. Below \<open>2 ^ - 1022\<close> the spacing stays that of the smallest
  normal numbers.
\<close>

definition to_double :: "real \<Rightarrow> real" where
  "to_double x =
     (if x = 0 then 0
      else
        let e = max (binary_exponent x) (- 1022)
        in if e \<le> 52 then
             of_int (round_half_even (x * 2 ^ nat (52 - e))) / 2 ^ nat (52 - e)
           else
             of_int (round_half_even (x / 2 ^ nat (e - 52))) * 2 ^ nat (e - 52))"

text \<open>Python's \<^verbatim>\<open>+\<close>, \<^verbatim>\<open>*\<close> and \<^verbatim>\<open>/\<close> on floats.\<close>

definition fadd :: "real \<Rightarrow> real \<Rightarrow> real" where
  "fadd a b = to_double (a + b)"

definition fmul :: "real \<Rightarrow> real \<Rightarrow> real" where
  "fmul a b = to_double (a * b)"

definition fdiv :: "real \<Rightarrow> real \<Rightarrow> real" where
  "fdiv a b = to_double (a / b)"

text \<open>
  \<^verbatim>\<open>sum(...)\<close> starts from the integer 0 and adds from left to right. (From Python 3.12
  on it compensates the rounding errors of longer lists; on a list of one number both
  give that number.)
\<close>

definition fsum :: "real list \<Rightarrow> real" where
  "fsum xs = foldl fadd 0 xs"

text \<open>
  The theft analysis once more, in doubles. The inputs \<^verbatim>\<open>prob\<close> are doubles already;
  integers convert exactly.
\<close>

definition disappearance_of_double :: "nat \<Rightarrow> string \<times> int list \<Rightarrow> disappearance list" where
  "disappearance_of_double total_frames lf =
     (case lf of (l, frames) \<Rightarrow>
        if real (length frames) < fmul (real total_frames) (to_double 0.3)
           \<and> length frames \<ge> 2 then
          let first = Min (set frames);
              last = Max (set frames);
              duration = last - first
          in if real_of_int duration < fmul (real total_frames) (to_double 0.5) then
               [\<lparr>item = l, first_seen = first, last_seen = last,
                 duration_ratio = fdiv (real_of_int duration) (real total_frames),
                 suspicion_score =
                   (if real_of_int duration < fmul (real total_frames) (to_double 0.2)
                    then to_double 0.8 else to_double 0.6)\<rparr>]
             else []
        else [])"

definition calculate_theft_probability_double ::
  "disappearance list \<Rightarrow> theft_action list \<Rightarrow> real" where
  "calculate_theft_probability_double disappearances tactions =
     (if disappearances = [] \<and> tactions = [] then 0.0
      else
        let disappearance_score =
              fdiv (fsum (map suspicion_score disappearances)) (real (len_or_1 disappearances));
            action_score = fdiv (fsum (map ta_confidence tactions)) (real (len_or_1 tactions))
        in if disappearances \<noteq> [] \<and> tactions \<noteq> [] then
             min 1.0 (fmul (fdiv (fadd disappearance_score action_score) 2) (to_double 1.2))
           else if disappearances \<noteq> [] then fmul disappearance_score (to_double 0.8)
           else fmul action_score (to_double 0.7))"

definition analyze_theft_patterns_double :: "frame_info list \<Rightarrow> clip list \<Rightarrow> theft" where
  "analyze_theft_patterns_double detections actions =
     (let total_frames = length detections;
          valuable_disappearance =
            concat (map (disappearance_of_double total_frames) (valuable_timeline detections));
          tactions = theft_actions_of actions;
          probability = calculate_theft_probability_double valuable_disappearance tactions
      in \<lparr>t_detected = length valuable_disappearance > 0 \<or> length tactions > 0,
          theft_probability = probability,
          valuable_disappearances = valuable_disappearance,
          theft_actions = tactions\<rparr>)"

section \<open>The specification's wording\<close>

text \<open>
  The buckets of the overall severity as the specification words them:
  above 0.8 critical, above 0.6 high, above 0.4 medium, above 0 low, else safe.
\<close>

definition spec_bucket :: "real \<Rightarrow> string" where
  "spec_bucket m =
     (if m > 0.8 then ''critical''
      else if m > 0.6 then ''high''
      else if m > 0.4 then ''medium''
      else if m > 0 then ''low''
      else ''safe'')"

text \<open>
  A maximal run of scores above 35: \<open>d\<close> consecutive positions from \<open>s\<close> on, each scoring
  above 35, that can be extended neither to the left nor to the right.
\<close>

definition is_maximal_run :: "real list \<Rightarrow> nat \<Rightarrow> nat \<Rightarrow> bool" where
  "is_maximal_run scores s d =
     (0 < d \<and> s + d \<le> length scores
      \<and> (\<forall>i \<in> {s..<s + d}. scores ! i > 35)
      \<and> (s = 0 \<or> \<not> scores ! (s - 1) > 35)
      \<and> (s + d = length scores \<or> \<not> scores ! (s + d) > 35))"

text \<open>
  A weapon and a person of the same frame whose box centres are less than \<open>t\<close> apart.
\<close>

definition pair_within :: "frame_info list \<Rightarrow> real \<Rightarrow> bool" where
  "pair_within detections t =
     (\<exists>f \<in> set detections. \<exists>w \<in> set (frame_weapons f). \<exists>p \<in> set (frame_persons f).
        calculate_bbox_distance (bbox w) (bbox p) < t)"

text \<open>The number of frames that show at least one weapon.\<close>

definition weapon_frame_count :: "frame_info list \<Rightarrow> nat" where
  "weapon_frame_count detections = length (filter (\<lambda>f. frame_weapons f \<noteq> []) detections)"

text \<open>An action prediction of some clip whose label matches a weapon keyword.\<close>

definition has_weapon_action :: "clip list \<Rightarrow> bool" where
  "has_weapon_action actions =
     (\<exists>c \<in> set actions. \<exists>a \<in> set (get_top_actions c).
        any_kw_in weapon_keywords (lower (action_label a)))"

text \<open>The valuable labels seen in a frame, one for each object that carries one.\<close>

definition valuables_of :: "frame_info \<Rightarrow> string list" where
  "valuables_of f =
     filter (\<lambda>l. l \<in> set valuable_labels) (map (\<lambda>obj. lower (label obj)) (get_objects f))"


section \<open>The loop of the chase detector, step by step\<close>

text \<open>
  For the proof about the chase detector: a run of \<open>d\<close> scores above 35 from position
  \<open>s\<close> that cannot be extended to the left, the state of the loop after \<open>k\<close>
  iterations, and what holds of that state.
\<close>

definition run_to :: "real list \<Rightarrow> nat \<Rightarrow> nat \<Rightarrow> bool" where
  "run_to scores s d =
     (0 < d \<and> (\<forall>i \<in> {s..<s + d}. scores ! i > 35) \<and> (s = 0 \<or> \<not> scores ! (s - 1) > 35))"

definition chase_state_after :: "real list \<Rightarrow> nat \<Rightarrow> chase_state" where
  "chase_state_after scores k =
     foldl (chase_step scores)
       \<lparr>found = [], in_chase = False, chase_start = 0, chase_duration = 0\<rparr>
       (enumerate 0 (take k scores))"

definition span :: "chase_sequence \<Rightarrow> nat \<times> nat" where
  "span c = (start_frame c, duration_frames c)"

definition chase_inv :: "real list \<Rightarrow> nat \<Rightarrow> chase_state \<Rightarrow> bool" where
  "chase_inv scores k st =
     (span ` set (found st)
        = {(s, d). 3 \<le> d \<and> run_to scores s d \<and> s + d < k \<and> \<not> scores ! (s + d) > 35}
      \<and> (in_chase st \<longleftrightarrow> 0 < k \<and> scores ! (k - 1) > 35)
      \<and> (in_chase st \<longrightarrow>
            chase_start st + chase_duration st = k
            \<and> run_to scores (chase_start st) (chase_duration st))
      \<and> sorted_wrt (<) (map start_frame (found st))
      \<and> (\<forall>c \<in> set (found st).
            c = chase_entry scores (start_frame c) (duration_frames c)))"

section \<open>Verified properties\<close>

subsection \<open>Violence intensity by keyword tier\<close>

text \<open>
  Claim C7. For a probability \<open>p\<close> in \<open>[0, 1]\<close>, a label of the extreme tier scores
  \<open>min(1, 2p)\<close>, one of the high tier \<open>min(1, 1.5p)\<close>, one of the medium tier
  \<open>min(1, 1.2p)\<close> and any other label \<open>0.8p\<close>, and these intensities do not increase
  from tier to tier. The tier of a label is the first keyword list that matches it.
\<close>

theorem violence_intensity_monotone_in_tier:
  assumes "0 \<le> p" and "p \<le> 1"
    and "any_kw_in extreme_violence (lower e)"
    and "\<not> any_kw_in extreme_violence (lower h)" and "any_kw_in high_violence (lower h)"
    and "\<not> any_kw_in extreme_violence (lower m)" and "\<not> any_kw_in high_violence (lower m)"
    and "any_kw_in medium_violence (lower m)"
    and "\<not> any_kw_in extreme_violence (lower other)"
    and "\<not> any_kw_in high_violence (lower other)"
    and "\<not> any_kw_in medium_violence (lower other)"
  shows "calculate_violence_intensity e p = min 1 (2.0 * p)
       \<and> calculate_violence_intensity h p = min 1 (1.5 * p)
       \<and> calculate_violence_intensity m p = min 1 (1.2 * p)
       \<and> calculate_violence_intensity other p = 0.8 * p
       \<and> calculate_violence_intensity e p \<ge> calculate_violence_intensity h p
       \<and> calculate_violence_intensity h p \<ge> calculate_violence_intensity m p
       \<and> calculate_violence_intensity m p \<ge> calculate_violence_intensity other p"
  using assms by (simp add: calculate_violence_intensity_def min_def mult.commute)

theorem violence_intensity_monotone_in_tier_witness:
  "any_kw_in extreme_violence (lower ''Stabbing'')
   \<and> \<not> any_kw_in extreme_violence (lower ''Punching bag'')
   \<and> any_kw_in high_violence (lower ''Punching bag'')
   \<and> any_kw_in medium_violence (lower ''Pushing cart'')
   \<and> \<not> any_kw_in medium_violence (lower ''Dancing'')
   \<and> calculate_violence_intensity ''Stabbing'' (2 / 5) = 4 / 5
   \<and> calculate_violence_intensity ''Punching bag'' (2 / 5) = 3 / 5
   \<and> calculate_violence_intensity ''Pushing cart'' (2 / 5) = 12 / 25
   \<and> calculate_violence_intensity ''Dancing'' (2 / 5) = 8 / 25
   \<and> calculate_violence_intensity ''Stabbing'' (2 / 5)
        \<ge> calculate_violence_intensity ''Punching bag'' (2 / 5)
   \<and> calculate_violence_intensity ''Punching bag'' (2 / 5)
        \<ge> calculate_violence_intensity ''Pushing cart'' (2 / 5)
   \<and> calculate_violence_intensity ''Pushing cart'' (2 / 5)
        \<ge> calculate_violence_intensity ''Dancing'' (2 / 5)"
proof -
  have e: "any_kw_in extreme_violence (lower ''Stabbing'')" by code_simp
  have h: "\<not> any_kw_in extreme_violence (lower ''Punching bag'')"
    "any_kw_in high_violence (lower ''Punching bag'')" by code_simp+
  have m: "\<not> any_kw_in extreme_violence (lower ''Pushing cart'')"
    "\<not> any_kw_in high_violence (lower ''Pushing cart'')"
    "any_kw_in medium_violence (lower ''Pushing cart'')" by code_simp+
  have other: "\<not> any_kw_in extreme_violence (lower ''Dancing'')"
    "\<not> any_kw_in high_violence (lower ''Dancing'')"
    "\<not> any_kw_in medium_violence (lower ''Dancing'')" by code_simp+
  have p: "(0::real) \<le> 2 / 5" "(2::real) / 5 \<le> 1" by simp_all
  from violence_intensity_monotone_in_tier [OF p e h m other] e h m other
  show ?thesis by simp
qed

subsection \<open>Overall severity of the report\<close>

lemma foldl_max_Max: "foldl max (v::real) vs = Max (set (v # vs))"
proof (induction vs arbitrary: v)
  case Nil
  show ?case by simp
next
  case (Cons w ws)
  have "foldl max v (w # ws) = Max (set (max v w # ws))"
    using Cons.IH [of "max v w"] by simp
  also have "\<dots> = Max (set (v # w # ws))"
  proof (cases "ws = []")
    case True
    then show ?thesis by simp
  next
    case False
    then have "Max (insert (max v w) (set ws)) = max (max v w) (Max (set ws))"
      by (simp add: Max_insert)
    moreover from False have "Max (insert v (insert w (set ws))) = max v (max w (Max (set ws)))"
      by (simp add: Max_insert)
    ultimately show ?thesis by (simp add: max.assoc)
  qed
  finally show ?case .
qed

lemma determine_overall_severity_Max:
  "determine_overall_severity inds =
     (if inds = [] then ''safe''
      else let m = Max (weighted_confidence ` set inds)
           in if m > 0.8 then ''critical''
              else if m > 0.6 then ''high''
              else if m > 0.4 then ''medium''
              else ''low'')"
proof (cases inds)
  case Nil
  then show ?thesis by (simp add: determine_overall_severity_def)
next
  case (Cons i rest)
  have "foldl max (weighted_confidence i) (map weighted_confidence rest)
          = Max (weighted_confidence ` set (i # rest))"
    by (simp add: foldl_max_Max)
  with Cons show ?thesis
    unfolding determine_overall_severity_def Let_def
    by (simp del: foldl_Cons set_simps image_insert)
qed

lemma report_severity:
  "overall_severity (generate_crime_report d a)
     = determine_overall_severity (crime_indicators (generate_crime_report d a))"
  by (simp add: generate_crime_report_def Let_def)

lemma report_indicators:
  "crime_indicators (generate_crime_report d a)
     = weapon_indicator (analyze_weapon_threat d a)
       @ violence_indicator (analyze_violence_intensity a d)
       @ theft_indicator (analyze_theft_patterns d a)
       @ suspicious_indicator (analyze_suspicious_behavior d a)"
  by (simp add: generate_crime_report_def Let_def)

lemma severity_weight_values:
  "severity_weight ''weapon_threat'' = 1"
  "severity_weight ''violent_assault'' = 0.95"
  "severity_weight ''theft_or_robbery'' = 0.5"
  "severity_weight ''suspicious_activity'' = 0.6"
  by (simp_all add: severity_weight_def severity_weights_def)

lemma report_indicators_positive:
  assumes "i \<in> set (crime_indicators (generate_crime_report d a))"
  shows "0 < weighted_confidence i"
  using assms
  by (auto simp: report_indicators weapon_indicator_def violence_indicator_def
      theft_indicator_def suspicious_indicator_def weighted_confidence_def
      severity_weight_values split: if_splits)

subsection \<open>Facts about the analyzers\<close>

lemma wt_detected_iff:
  "wt_detected (analyze_weapon_threat d a) = list_ex (\<lambda>f. frame_weapons f \<noteq> []) d"
  by (induction d) (simp_all add: analyze_weapon_threat_def Let_def weapon_frames_of_def)

lemma weapon_frames_eq:
  "weapon_frames (analyze_weapon_threat d a) = concat (map weapon_frames_of d)"
  by (simp add: analyze_weapon_threat_def Let_def)

lemma threat_level_eq:
  "threat_level (analyze_weapon_threat d a)
     = calculate_threat_level (length (concat (map weapon_frames_of d)))
         (concat (map proximity_of d)) (weapon_actions_of a)"
  by (simp add: analyze_weapon_threat_def Let_def)

lemma sum_list_le_length:
  fixes xs :: "real list"
  assumes "\<forall>x \<in> set xs. x \<le> c"
  shows "sum_list xs \<le> real (length xs) * c"
  using assms by (induction xs) (auto simp: algebra_simps)

lemma sum_list_ge_length:
  fixes xs :: "real list"
  assumes "\<forall>x \<in> set xs. c \<le> x"
  shows "real (length xs) * c \<le> sum_list xs"
  using assms by (induction xs) (auto simp: algebra_simps)

lemma avg_le:
  fixes xs :: "real list"
  assumes "\<forall>x \<in> set xs. x \<le> c" and "xs \<noteq> []"
  shows "sum_list xs / real (len_or_1 xs) \<le> c"
proof -
  from assms(2) have n: "len_or_1 xs = length xs" "0 < length xs"
    by (cases xs; simp add: len_or_1_def)+
  from sum_list_le_length [OF assms(1)] n show ?thesis
    by (simp add: pos_divide_le_eq mult.commute)
qed

lemma avg_ge:
  fixes xs :: "real list"
  assumes "\<forall>x \<in> set xs. c \<le> x" and "xs \<noteq> []"
  shows "c \<le> sum_list xs / real (len_or_1 xs)"
proof -
  from assms(2) have n: "len_or_1 xs = length xs" "0 < length xs"
    by (cases xs; simp add: len_or_1_def)+
  from sum_list_ge_length [OF assms(1)] n show ?thesis
    by (simp add: pos_le_divide_eq mult.commute)
qed

lemma avg_empty: "sum_list (map f []) / real (len_or_1 []) = 0"
  by simp

lemma disappearance_of_score:
  assumes "x \<in> set (disappearance_of n lf)"
  shows "suspicion_score x = 0.8 \<or> suspicion_score x = 0.6"
  using assms
  by (cases lf) (auto simp: disappearance_of_def Let_def split: if_splits)

lemma valuable_disappearances_score:
  assumes "x \<in> set (valuable_disappearances (analyze_theft_patterns d a))"
  shows "suspicion_score x = 0.8 \<or> suspicion_score x = 0.6"
  using assms
  by (auto simp: analyze_theft_patterns_def Let_def dest: disappearance_of_score)

lemma theft_actions_prob:
  assumes "t \<in> set (theft_actions (analyze_theft_patterns d a))"
  shows "\<exists>c \<in> set a. \<exists>x \<in> set (get_top_actions c). ta_confidence t = prob x"
  using assms
  by (fastforce simp: analyze_theft_patterns_def Let_def theft_actions_of_def clip_actions_def)

lemma theft_probability_eq:
  "theft_probability (analyze_theft_patterns d a)
     = calculate_theft_probability (valuable_disappearances (analyze_theft_patterns d a))
         (theft_actions (analyze_theft_patterns d a))"
  by (simp add: analyze_theft_patterns_def Let_def)

lemma calculate_theft_probability_le_1:
  assumes ds: "\<forall>x \<in> set ds. suspicion_score x \<le> 0.8"
    and ts: "\<forall>t \<in> set ts. ta_confidence t \<le> 1"
  shows "calculate_theft_probability ds ts \<le> 1"
proof -
  have d: "ds \<noteq> [] \<Longrightarrow> sum_list (map suspicion_score ds) / real (len_or_1 ds) \<le> 0.8"
    using avg_le [of "map suspicion_score ds" "0.8"] ds by (simp add: len_or_1_def)
  have t: "ts \<noteq> [] \<Longrightarrow> sum_list (map ta_confidence ts) / real (len_or_1 ts) \<le> 1"
    using avg_le [of "map ta_confidence ts" 1] ts by (simp add: len_or_1_def)
  show ?thesis
    using d t by (auto simp: calculate_theft_probability_def Let_def)
qed

lemma calculate_theft_probability_pos:
  assumes ds: "\<forall>x \<in> set ds. 0.6 \<le> suspicion_score x"
    and ts: "\<forall>t \<in> set ts. 0 < ta_confidence t"
    and ne: "ds \<noteq> [] \<or> ts \<noteq> []"
  shows "0 < calculate_theft_probability ds ts"
proof -
  have d: "ds \<noteq> [] \<Longrightarrow> 0.6 \<le> sum_list (map suspicion_score ds) / real (len_or_1 ds)"
    using avg_ge [of "map suspicion_score ds" "0.6"] ds by (simp add: len_or_1_def)
  have ts0: "\<forall>t \<in> set ts. 0 \<le> ta_confidence t"
    using ts less_imp_le by blast
  have t0: "0 \<le> sum_list (map ta_confidence ts) / real (len_or_1 ts)"
    using ts0 by (auto intro!: divide_nonneg_nonneg sum_list_nonneg)
  have t: "0 < sum_list (map ta_confidence ts) / real (len_or_1 ts)" if "ts \<noteq> []"
  proof -
    from that obtain y ys where ts_eq: "ts = y # ys" by (cases ts) auto
    have "0 \<le> sum_list (map ta_confidence ys)"
      using ts0 ts_eq by (auto intro!: sum_list_nonneg)
    moreover have "0 < ta_confidence y" using ts ts_eq by simp
    ultimately have "0 < sum_list (map ta_confidence ts)" using ts_eq by simp
    moreover have "0 < real (len_or_1 ts)" by (simp add: len_or_1_def)
    ultimately show ?thesis by simp
  qed
  show ?thesis
  proof (cases "ds = []")
    case True
    with ne t show ?thesis by (simp add: calculate_theft_probability_def Let_def)
  next
    case False
    with d t0 show ?thesis
      by (auto simp: calculate_theft_probability_def Let_def min_def)
  qed
qed

subsection \<open>Claim C1: the severity buckets\<close>

text \<open>
  Claim C1, as stated, says that an indicator list whose largest weighted confidence is
  0.85 gives the overall severity "high". It gives "critical": 0.85 is above 0.8. The
  list is the one that the report builds for one frame with two persons and five
  "punching bag" actions of probability 10/19: a single indicator of type
  \<^verbatim>\<open>violent_assault\<close> with confidence 17/19, weighted 0.95 * 17/19 = 0.85.
\<close>

theorem overall_severity_085_counterexample:
  "crime_indicators
     (generate_crime_report
        [\<lparr>frame = Some ''f0.jpg'', frame_index = Some 0,
          objects = Some
            [\<lparr>label = ''person'', conf = 0.9, bbox = \<lparr>x1 = 0, y1 = 0, x2 = 10, y2 = 30\<rparr>\<rparr>,
             \<lparr>label = ''person'', conf = 0.9, bbox = \<lparr>x1 = 20, y1 = 0, x2 = 30, y2 = 30\<rparr>\<rparr>]\<rparr>]
        [\<lparr>clip_index = Some 0, clip_type = Some ''middle'',
          top_actions = Some (replicate 5 \<lparr>action_label = ''punching bag'', prob = 10 / 19\<rparr>)\<rparr>])
     = [\<lparr>ind_type = ''violent_assault'', ind_severity = ''extreme'', ind_confidence = 17 / 19\<rparr>]
   \<and> Max (weighted_confidence `
            set [\<lparr>ind_type = ''violent_assault'', ind_severity = ''extreme'',
                  ind_confidence = 17 / 19\<rparr>]) = 0.85
   \<and> determine_overall_severity
        [\<lparr>ind_type = ''violent_assault'', ind_severity = ''extreme'', ind_confidence = 17 / 19\<rparr>]
       = ''critical''
   \<and> overall_severity
        (generate_crime_report
           [\<lparr>frame = Some ''f0.jpg'', frame_index = Some 0,
             objects = Some
               [\<lparr>label = ''person'', conf = 0.9, bbox = \<lparr>x1 = 0, y1 = 0, x2 = 10, y2 = 30\<rparr>\<rparr>,
                \<lparr>label = ''person'', conf = 0.9, bbox = \<lparr>x1 = 20, y1 = 0, x2 = 30, y2 = 30\<rparr>\<rparr>]\<rparr>]
           [\<lparr>clip_index = Some 0, clip_type = Some ''middle'',
             top_actions = Some (replicate 5 \<lparr>action_label = ''punching bag'', prob = 10 / 19\<rparr>)\<rparr>])
       \<noteq> ''high''"
  (is "crime_indicators (generate_crime_report ?d ?a) = ?inds \<and> ?m \<and> ?s \<and> ?r")
proof -
  have w: "\<not> list_ex (\<lambda>f. frame_weapons f \<noteq> []) ?d" by code_simp
  have v: "violence_indicator (analyze_violence_intensity ?a ?d) = ?inds" by code_simp
  have t: "theft_indicator (analyze_theft_patterns ?d ?a) = []" by code_simp
  have s: "suspicious_indicator (analyze_suspicious_behavior ?d ?a) = []" by code_simp
  have inds: "crime_indicators (generate_crime_report ?d ?a) = ?inds"
    unfolding report_indicators v t s weapon_indicator_def wt_detected_iff
    using w by simp
  have sev: ?s
    by (simp add: determine_overall_severity_def weighted_confidence_def severity_weight_values)
  have m: ?m
    by (simp add: weighted_confidence_def severity_weight_values)
  have r: ?r
    unfolding report_severity inds sev by simp
  from inds m sev r show ?thesis by blast
qed

text \<open>
  Claim C1, amended. The overall severity of the report is computed from its indicator
  list alone. For every indicator list it is "safe" when the list is empty, and
  otherwise the bucket of the largest weighted confidence (confidence times the weight
  of the type: weapon_threat 1.0, violent_assault 0.95, armed_robbery 0.90,
  physical_fight 0.85, theft_in_progress 0.80, vandalism 0.70, suspicious_activity 0.60,
  trespassing 0.50, any other type 0.5): above 0.8 critical, above 0.6 high, above 0.4
  medium, else low. Every indicator that the report builds has a positive weighted
  confidence, so on the report's own list this agrees with the buckets "above 0 low,
  else safe". In particular a largest weighted confidence of 0.85 gives "critical", one
  of 0.35 gives "low", and the empty list gives "safe".
\<close>

theorem overall_severity_buckets:
  "overall_severity (generate_crime_report d a)
     = determine_overall_severity (crime_indicators (generate_crime_report d a))
   \<and> determine_overall_severity inds =
       (if inds = [] then ''safe''
        else let m = Max (weighted_confidence ` set inds)
             in if m > 0.8 then ''critical''
                else if m > 0.6 then ''high''
                else if m > 0.4 then ''medium''
                else ''low'')
   \<and> map severity_weight
         [''weapon_threat'', ''violent_assault'', ''armed_robbery'', ''physical_fight'',
          ''theft_in_progress'', ''vandalism'', ''suspicious_activity'', ''trespassing'']
       = [1.0, 0.95, 0.90, 0.85, 0.80, 0.70, 0.60, 0.50]
   \<and> overall_severity (generate_crime_report d a)
       = spec_bucket
           (if crime_indicators (generate_crime_report d a) = [] then 0
            else Max (weighted_confidence ` set (crime_indicators (generate_crime_report d a))))
   \<and> (inds \<noteq> [] \<and> Max (weighted_confidence ` set inds) = 0.85
        \<longrightarrow> determine_overall_severity inds = ''critical'')
   \<and> (inds \<noteq> [] \<and> Max (weighted_confidence ` set inds) = 0.35
        \<longrightarrow> determine_overall_severity inds = ''low'')
   \<and> determine_overall_severity [] = ''safe''"
proof -
  let ?r = "crime_indicators (generate_crime_report d a)"
  have weights: "map severity_weight
         [''weapon_threat'', ''violent_assault'', ''armed_robbery'', ''physical_fight'',
          ''theft_in_progress'', ''vandalism'', ''suspicious_activity'', ''trespassing'']
       = [1.0, 0.95, 0.90, 0.85, 0.80, 0.70, 0.60, 0.50]"
    by (simp add: severity_weight_def severity_weights_def)
  have pos: "0 < Max (weighted_confidence ` set ?r)" if "?r \<noteq> []"
  proof -
    from that have "Max (weighted_confidence ` set ?r) \<in> weighted_confidence ` set ?r"
      by (intro Max_in) auto
    then show ?thesis using report_indicators_positive by auto
  qed
  have "determine_overall_severity ?r
       = spec_bucket (if ?r = [] then 0 else Max (weighted_confidence ` set ?r))"
    using pos by (simp add: determine_overall_severity_Max spec_bucket_def Let_def)
  then have spec: "overall_severity (generate_crime_report d a)
       = spec_bucket (if ?r = [] then 0 else Max (weighted_confidence ` set ?r))"
    by (simp only: report_severity)
  have hi: "inds \<noteq> [] \<and> Max (weighted_confidence ` set inds) = 0.85
        \<longrightarrow> determine_overall_severity inds = ''critical''"
    by (simp add: determine_overall_severity_Max Let_def)
  have lo: "inds \<noteq> [] \<and> Max (weighted_confidence ` set inds) = 0.35
        \<longrightarrow> determine_overall_severity inds = ''low''"
    by (simp add: determine_overall_severity_Max Let_def)
  have safe: "determine_overall_severity [] = ''safe''"
    by (simp add: determine_overall_severity_def)
  show ?thesis
    by (intro conjI) (rule report_severity determine_overall_severity_Max weights spec hi lo safe)+
qed

theorem overall_severity_buckets_witness:
  "Max (weighted_confidence `
          set [\<lparr>ind_type = ''suspicious_activity'', ind_severity = ''medium'',
                ind_confidence = 0.75\<rparr>,
               \<lparr>ind_type = ''weapon_threat'', ind_severity = ''medium'',
                ind_confidence = 0.85\<rparr>]) = 0.85
   \<and> determine_overall_severity
        [\<lparr>ind_type = ''suspicious_activity'', ind_severity = ''medium'', ind_confidence = 0.75\<rparr>,
         \<lparr>ind_type = ''weapon_threat'', ind_severity = ''medium'', ind_confidence = 0.85\<rparr>]
       = ''critical''
   \<and> overall_severity (generate_crime_report [] []) = ''safe''"
  (is "?m \<and> determine_overall_severity ?inds = _ \<and> _")
proof -
  have m: ?m
    by (simp add: weighted_confidence_def severity_weight_values)
  have "violence_indicator (analyze_violence_intensity [] []) = []"
    and "theft_indicator (analyze_theft_patterns [] []) = []"
    and "suspicious_indicator (analyze_suspicious_behavior [] []) = []"
    by code_simp+
  then have e: "crime_indicators (generate_crime_report [] []) = []"
    by (simp add: report_indicators weapon_indicator_def wt_detected_iff)
  from overall_severity_buckets [of "[]" "[]" ?inds] m e show ?thesis
    by (simp add: determine_overall_severity_def)
qed

subsection \<open>Claim C9: a detected weapon makes the report critical\<close>

text \<open>
  Claim C9. Whenever the weapon-threat analysis reports \<^verbatim>\<open>detected\<close> (there is at
  least one weapon frame), the report carries the indicator \<^verbatim>\<open>weapon_threat\<close> with
  confidence 0.9, whose weighted confidence is 0.9, and the overall severity is
  "critical".
\<close>

theorem weapon_detected_is_critical:
  assumes "wt_detected (analyze_weapon_threat d a)"
  shows "weapon_frames (analyze_weapon_threat d a) \<noteq> []
       \<and> \<lparr>ind_type = ''weapon_threat'', ind_severity = threat_level (analyze_weapon_threat d a),
           ind_confidence = 0.9\<rparr> \<in> set (crime_indicators (generate_crime_report d a))
       \<and> weighted_confidence
           \<lparr>ind_type = ''weapon_threat'', ind_severity = threat_level (analyze_weapon_threat d a),
            ind_confidence = 0.9\<rparr> = 0.9
       \<and> overall_severity (generate_crime_report d a) = ''critical''"
proof -
  let ?w = "\<lparr>ind_type = ''weapon_threat'', ind_severity = threat_level (analyze_weapon_threat d a),
             ind_confidence = 0.9\<rparr>"
  let ?r = "crime_indicators (generate_crime_report d a)"
  from assms have frames: "weapon_frames (analyze_weapon_threat d a) \<noteq> []"
    by (simp add: analyze_weapon_threat_def Let_def)
  from assms have mem: "?w \<in> set ?r"
    by (simp add: report_indicators weapon_indicator_def)
  have wc: "weighted_confidence ?w = 0.9"
    by (simp add: weighted_confidence_def severity_weight_values)
  from mem have "weighted_confidence ?w \<le> Max (weighted_confidence ` set ?r)"
    by (intro Max_ge) auto
  with wc have "0.8 < Max (weighted_confidence ` set ?r)" by simp
  moreover from mem have "?r \<noteq> []" by auto
  ultimately have "determine_overall_severity ?r = ''critical''"
    by (simp add: determine_overall_severity_Max Let_def)
  then have "overall_severity (generate_crime_report d a) = ''critical''"
    by (simp only: report_severity)
  with frames mem wc show ?thesis by blast
qed

theorem weapon_detected_is_critical_witness:
  "wt_detected
     (analyze_weapon_threat
        [\<lparr>frame = Some ''f0.jpg'', frame_index = Some 0,
          objects = Some
            [\<lparr>label = ''knife'', conf = 0.5, bbox = \<lparr>x1 = 0, y1 = 0, x2 = 10, y2 = 10\<rparr>\<rparr>]\<rparr>] [])
   \<and> overall_severity
       (generate_crime_report
          [\<lparr>frame = Some ''f0.jpg'', frame_index = Some 0,
            objects = Some
              [\<lparr>label = ''knife'', conf = 0.5, bbox = \<lparr>x1 = 0, y1 = 0, x2 = 10, y2 = 10\<rparr>\<rparr>]\<rparr>] [])
      = ''critical''"
  (is "wt_detected (analyze_weapon_threat ?d ?a) \<and> _")
proof -
  have "list_ex (\<lambda>f. frame_weapons f \<noteq> []) ?d" by code_simp
  then have h: "wt_detected (analyze_weapon_threat ?d ?a)"
    by (simp only: wt_detected_iff)
  from weapon_detected_is_critical [OF h] h show ?thesis by blast
qed

subsection \<open>Claim C10: the theft indicator alone never reaches "high"\<close>

lemma theft_probability_le_1:
  assumes "list_all (\<lambda>c. list_all (\<lambda>x. prob x \<le> 1) (get_top_actions c)) a"
  shows "theft_probability (analyze_theft_patterns d a) \<le> 1"
proof -
  have "\<forall>x \<in> set (valuable_disappearances (analyze_theft_patterns d a)). suspicion_score x \<le> 0.8"
    using valuable_disappearances_score by fastforce
  moreover have "\<forall>t \<in> set (theft_actions (analyze_theft_patterns d a)). ta_confidence t \<le> 1"
  proof
    fix t assume "t \<in> set (theft_actions (analyze_theft_patterns d a))"
    from theft_actions_prob [OF this] assms show "ta_confidence t \<le> 1"
      by (auto simp: list_all_iff)
  qed
  ultimately show ?thesis
    unfolding theft_probability_eq by (rule calculate_theft_probability_le_1)
qed

text \<open>
  Claim C10. The theft indicator has the type \<^verbatim>\<open>theft_or_robbery\<close>, which the weight
  table does not list, so its weight is the default 0.5. For every input with action
  probabilities at most 1 whose only crime indicator is the theft indicator, the
  weighted confidence is at most 0.5 and the overall severity is "low" or "medium",
  hence neither "high" nor "critical".
\<close>

theorem theft_only_at_most_medium:
  assumes "list_all (\<lambda>c. list_all (\<lambda>x. prob x \<le> 1) (get_top_actions c)) a"
    and "map ind_type (crime_indicators (generate_crime_report d a)) = [''theft_or_robbery'']"
  shows "map_of severity_weights ''theft_or_robbery'' = None
       \<and> severity_weight ''theft_or_robbery'' = 0.5
       \<and> list_all (\<lambda>i. weighted_confidence i \<le> 0.5) (crime_indicators (generate_crime_report d a))
       \<and> (overall_severity (generate_crime_report d a) = ''low''
          \<or> overall_severity (generate_crime_report d a) = ''medium'')
       \<and> overall_severity (generate_crime_report d a) \<noteq> ''high''
       \<and> overall_severity (generate_crime_report d a) \<noteq> ''critical''"
proof -
  let ?t = "analyze_theft_patterns d a"
  let ?i = "\<lparr>ind_type = ''theft_or_robbery'',
             ind_severity = (if theft_probability ?t > 0.7 then ''high'' else ''medium''),
             ind_confidence = theft_probability ?t\<rparr>"
  from assms(2) have inds: "crime_indicators (generate_crime_report d a) = [?i]"
    by (auto simp: report_indicators weapon_indicator_def violence_indicator_def
        theft_indicator_def suspicious_indicator_def split: if_splits)
  have none: "map_of severity_weights ''theft_or_robbery'' = None"
    by (simp add: severity_weights_def)
  have w: "severity_weight ''theft_or_robbery'' = 0.5"
    by (simp add: severity_weight_values)
  have wc: "weighted_confidence ?i \<le> 0.5"
    using theft_probability_le_1 [OF assms(1), of d]
    by (simp add: weighted_confidence_def w)
  then have sev: "determine_overall_severity [?i] = ''low''
      \<or> determine_overall_severity [?i] = ''medium''"
    by (simp add: determine_overall_severity_def)
  show ?thesis
    unfolding report_severity inds using none w wc sev by auto
qed

theorem theft_only_at_most_medium_witness:
  "map ind_type
     (crime_indicators
        (generate_crime_report
           (\<lparr>frame = Some ''f0.jpg'', frame_index = Some 0,
             objects = Some
               [\<lparr>label = ''backpack'', conf = 0.6, bbox = \<lparr>x1 = 0, y1 = 0, x2 = 10, y2 = 10\<rparr>\<rparr>]\<rparr>
            # \<lparr>frame = Some ''f1.jpg'', frame_index = Some 1,
               objects = Some
                 [\<lparr>label = ''backpack'', conf = 0.5, bbox = \<lparr>x1 = 2, y1 = 0, x2 = 12, y2 = 10\<rparr>\<rparr>]\<rparr>
            # map (\<lambda>i. \<lparr>frame = None, frame_index = Some i, objects = Some []\<rparr>)
                [2, 3, 4, 5, 6, 7, 8, 9])
           [\<lparr>clip_index = Some 0, clip_type = Some ''middle'',
             top_actions = Some [\<lparr>action_label = ''walking the dog'', prob = 0.5\<rparr>]\<rparr>]))
     = [''theft_or_robbery'']
   \<and> overall_severity
        (generate_crime_report
           (\<lparr>frame = Some ''f0.jpg'', frame_index = Some 0,
             objects = Some
               [\<lparr>label = ''backpack'', conf = 0.6, bbox = \<lparr>x1 = 0, y1 = 0, x2 = 10, y2 = 10\<rparr>\<rparr>]\<rparr>
            # \<lparr>frame = Some ''f1.jpg'', frame_index = Some 1,
               objects = Some
                 [\<lparr>label = ''backpack'', conf = 0.5, bbox = \<lparr>x1 = 2, y1 = 0, x2 = 12, y2 = 10\<rparr>\<rparr>]\<rparr>
            # map (\<lambda>i. \<lparr>frame = None, frame_index = Some i, objects = Some []\<rparr>)
                [2, 3, 4, 5, 6, 7, 8, 9])
           [\<lparr>clip_index = Some 0, clip_type = Some ''middle'',
             top_actions = Some [\<lparr>action_label = ''walking the dog'', prob = 0.5\<rparr>]\<rparr>])
       \<noteq> ''high''"
  (is "map ind_type (crime_indicators (generate_crime_report ?d ?a)) = _ \<and> _")
proof -
  have p: "list_all (\<lambda>c. list_all (\<lambda>x. prob x \<le> 1) (get_top_actions c)) ?a"
    by code_simp
  have w: "\<not> list_ex (\<lambda>f. frame_weapons f \<noteq> []) ?d" by code_simp
  have v: "violence_indicator (analyze_violence_intensity ?a ?d) = []" by code_simp
  have t: "map ind_type (theft_indicator (analyze_theft_patterns ?d ?a)) = [''theft_or_robbery'']"
    by code_simp
  have s: "suspicious_indicator (analyze_suspicious_behavior ?d ?a) = []" by code_simp
  have only: "map ind_type (crime_indicators (generate_crime_report ?d ?a)) = [''theft_or_robbery'']"
    unfolding report_indicators v s weapon_indicator_def wt_detected_iff
    using w t by simp
  from theft_only_at_most_medium [OF p only] only show ?thesis by blast
qed

subsection \<open>Claim C5: a backpack seen in the first two of ten frames\<close>

lemma foldl_filter_map:
  "foldl (\<lambda>t obj. let l = g obj in if P l then h l t else t) t0 objs
     = foldl (\<lambda>t l. h l t) t0 (filter P (map g objs))"
  by (induction objs arbitrary: t0) (simp_all add: Let_def)

lemma timeline_frame_valuables:
  "timeline_frame t0 f
     = foldl (\<lambda>t l. timeline_append l (get_frame_index f) t) t0 (valuables_of f)"
  unfolding timeline_frame_def valuables_of_def
  by (rule foldl_filter_map)

lemma timeline_no_valuables:
  assumes "list_all (\<lambda>f. valuables_of f = []) fs"
  shows "foldl timeline_frame t0 fs = t0"
  using assms by (induction fs arbitrary: t0) (simp_all add: timeline_frame_valuables)

lemma no_theft_actions:
  assumes "list_all (\<lambda>c. list_all (\<lambda>x. \<not> any_kw_in theft_keywords (lower (action_label x)))
                       (get_top_actions c)) a"
  shows "theft_actions_of a = []"
  using assms
  by (auto simp: theft_actions_of_def clip_actions_def list_all_iff filter_empty_conv)

lemma double_values:
  "to_double 0.8 = 3602879701896397 / 4503599627370496"
  "to_double 0.64 = 5764607523034235 / 9007199254740992"
  "fmul (to_double 0.8) (to_double 0.8) = 5764607523034236 / 9007199254740992"
  by code_simp+

lemma double_textbook_sum:
  "fadd (to_double 0.1) (to_double 0.2) = 1351079888211149 / 4503599627370496"
  "to_double 0.3 = 5404319552844595 / 18014398509481984"
  "to_double (1 / 3) = 6004799503160661 / 18014398509481984"
  by code_simp+

text \<open>
  Claim C5, as stated, gives the theft probability 0.64. The code multiplies the double
  0.8 by the double 0.8, and the nearest double to that product is
  5764607523034236 / 2^53, printed 0.6400000000000001: it is neither the real number
  0.64 nor the double 5764607523034235 / 2^53 that the literal 0.64 denotes. The input is
  ten frames with a backpack in the frames 0 and 1 and no actions.
\<close>

theorem theft_probability_064_counterexample:
  "theft_probability
     (analyze_theft_patterns_double
        (\<lparr>frame = Some ''f0.jpg'', frame_index = Some 0,
          objects = Some
            [\<lparr>label = ''backpack'', conf = 0.6, bbox = \<lparr>x1 = 0, y1 = 0, x2 = 10, y2 = 10\<rparr>\<rparr>]\<rparr>
         # \<lparr>frame = Some ''f1.jpg'', frame_index = Some 1,
            objects = Some
              [\<lparr>label = ''backpack'', conf = 0.5, bbox = \<lparr>x1 = 2, y1 = 0, x2 = 12, y2 = 10\<rparr>\<rparr>]\<rparr>
         # map (\<lambda>i. \<lparr>frame = None, frame_index = Some i, objects = Some []\<rparr>)
             [2, 3, 4, 5, 6, 7, 8, 9])
        [])
     = 5764607523034236 / 9007199254740992
   \<and> to_double 0.64 = 5764607523034235 / 9007199254740992
   \<and> (5764607523034236 :: real) / 9007199254740992 \<noteq> to_double 0.64
   \<and> (5764607523034236 :: real) / 9007199254740992 \<noteq> 0.64"
  by code_simp

text \<open>
  Claim C5, amended. Take ten detection frames in which a backpack is the only valuable,
  seen once in the frame of index 0 and once in the frame of index 1, and actions none
  of which matches a theft keyword. Then the theft analysis finds exactly one
  disappearance, of "backpack", first seen at 0 and last seen at 1, with the suspicion
  score 0.8 (the double 3602879701896397 / 2^52), and the theft probability is the product
  0.8 * 0.8 in doubles, 5764607523034236 / 2^53 = 0.6400000000000001, which is the double
  next above the one written 0.64 and exceeds 0.64 by less than 2 / 10^16.
\<close>

theorem backpack_in_first_two_of_ten_frames:
  assumes "length rest = 8"
    and "valuables_of f0 = [''backpack'']" and "get_frame_index f0 = 0"
    and "valuables_of f1 = [''backpack'']" and "get_frame_index f1 = 1"
    and "list_all (\<lambda>f. valuables_of f = []) rest"
    and "list_all (\<lambda>c. list_all (\<lambda>x. \<not> any_kw_in theft_keywords (lower (action_label x)))
                        (get_top_actions c)) a"
  shows "valuable_disappearances (analyze_theft_patterns_double (f0 # f1 # rest) a)
           = [\<lparr>item = ''backpack'', first_seen = 0, last_seen = 1,
               duration_ratio = to_double 0.1, suspicion_score = to_double 0.8\<rparr>]
       \<and> to_double 0.8 = 3602879701896397 / 4503599627370496
       \<and> theft_actions (analyze_theft_patterns_double (f0 # f1 # rest) a) = []
       \<and> theft_probability (analyze_theft_patterns_double (f0 # f1 # rest) a)
           = fmul (to_double 0.8) (to_double 0.8)
       \<and> theft_probability (analyze_theft_patterns_double (f0 # f1 # rest) a)
           = 5764607523034236 / 9007199254740992
       \<and> to_double 0.64 = 5764607523034235 / 9007199254740992
       \<and> 0.64 < theft_probability (analyze_theft_patterns_double (f0 # f1 # rest) a)
       \<and> theft_probability (analyze_theft_patterns_double (f0 # f1 # rest) a)
           < 0.64 + 2 / 10 ^ 16"
proof -
  let ?d = "f0 # f1 # rest"
  let ?t = "analyze_theft_patterns_double ?d a"
  have "valuable_timeline ?d = foldl timeline_frame [(''backpack'', [0, 1])] rest"
    using assms(2-5) by (simp add: valuable_timeline_def timeline_frame_valuables)
  then have tl: "valuable_timeline ?d = [(''backpack'', [0, 1])]"
    using assms(6) by (simp add: timeline_no_valuables)
  have len: "length ?d = 10" using assms(1) by simp
  have dis: "disappearance_of_double 10 (''backpack'', [0, 1])
           = [\<lparr>item = ''backpack'', first_seen = 0, last_seen = 1,
               duration_ratio = to_double 0.1, suspicion_score = to_double 0.8\<rparr>]"
    by code_simp
  have ta: "theft_actions_of a = []"
    using assms(7) by (rule no_theft_actions)
  have d: "valuable_disappearances ?t
           = [\<lparr>item = ''backpack'', first_seen = 0, last_seen = 1,
               duration_ratio = to_double 0.1, suspicion_score = to_double 0.8\<rparr>]"
    unfolding analyze_theft_patterns_double_def Let_def len tl ta
    by (simp add: dis)
  have t: "theft_actions ?t = []"
    unfolding analyze_theft_patterns_double_def Let_def ta by simp
  have "theft_probability ?t
      = calculate_theft_probability_double
          [\<lparr>item = ''backpack'', first_seen = 0, last_seen = 1,
            duration_ratio = to_double 0.1, suspicion_score = to_double 0.8\<rparr>] []"
    unfolding analyze_theft_patterns_double_def Let_def len tl ta
    by (simp add: dis)
  also have "\<dots> = 5764607523034236 / 9007199254740992"
    by code_simp
  finally have v: "theft_probability ?t = 5764607523034236 / 9007199254740992" .
  have p: "theft_probability ?t = fmul (to_double 0.8) (to_double 0.8)"
    unfolding v by (rule double_values(3) [symmetric])
  have lo: "0.64 < theft_probability ?t" unfolding v by simp
  have hi: "theft_probability ?t < 0.64 + 2 / 10 ^ 16" unfolding v by simp
  show ?thesis
    by (intro conjI) (rule d t p v lo hi double_values)+
qed

theorem backpack_in_first_two_of_ten_frames_witness:
  "theft_probability
     (analyze_theft_patterns_double
        (\<lparr>frame = Some ''f0.jpg'', frame_index = Some 0,
          objects = Some
            [\<lparr>label = ''backpack'', conf = 0.6, bbox = \<lparr>x1 = 0, y1 = 0, x2 = 10, y2 = 10\<rparr>\<rparr>,
             \<lparr>label = ''chair'', conf = 0.7, bbox = \<lparr>x1 = 50, y1 = 0, x2 = 90, y2 = 60\<rparr>\<rparr>]\<rparr>
         # \<lparr>frame = Some ''f1.jpg'', frame_index = Some 1,
            objects = Some
              [\<lparr>label = ''Backpack'', conf = 0.5, bbox = \<lparr>x1 = 2, y1 = 0, x2 = 12, y2 = 10\<rparr>\<rparr>]\<rparr>
         # map (\<lambda>i. \<lparr>frame = None, frame_index = Some i, objects = Some []\<rparr>)
             [2, 3, 4, 5, 6, 7, 8, 9])
        [\<lparr>clip_index = Some 0, clip_type = Some ''middle'',
          top_actions = Some [\<lparr>action_label = ''walking the dog'', prob = 0.5\<rparr>]\<rparr>])
     = 5764607523034236 / 9007199254740992
   \<and> map item
       (valuable_disappearances
         (analyze_theft_patterns_double
           (\<lparr>frame = Some ''f0.jpg'', frame_index = Some 0,
             objects = Some
               [\<lparr>label = ''backpack'', conf = 0.6, bbox = \<lparr>x1 = 0, y1 = 0, x2 = 10, y2 = 10\<rparr>\<rparr>,
                \<lparr>label = ''chair'', conf = 0.7, bbox = \<lparr>x1 = 50, y1 = 0, x2 = 90, y2 = 60\<rparr>\<rparr>]\<rparr>
            # \<lparr>frame = Some ''f1.jpg'', frame_index = Some 1,
               objects = Some
                 [\<lparr>label = ''Backpack'', conf = 0.5, bbox = \<lparr>x1 = 2, y1 = 0, x2 = 12, y2 = 10\<rparr>\<rparr>]\<rparr>
            # map (\<lambda>i. \<lparr>frame = None, frame_index = Some i, objects = Some []\<rparr>)
                [2, 3, 4, 5, 6, 7, 8, 9])
           [\<lparr>clip_index = Some 0, clip_type = Some ''middle'',
             top_actions = Some [\<lparr>action_label = ''walking the dog'', prob = 0.5\<rparr>]\<rparr>]))
       = [''backpack'']"
  (is "theft_probability (analyze_theft_patterns_double (?f0 # ?f1 # ?rest) ?a) = _ \<and> _")
proof -
  have 1: "length ?rest = 8" by simp
  have 2: "valuables_of ?f0 = [''backpack'']" "get_frame_index ?f0 = 0" by code_simp+
  have 3: "valuables_of ?f1 = [''backpack'']" "get_frame_index ?f1 = 1" by code_simp+
  have 4: "list_all (\<lambda>f. valuables_of f = []) ?rest" by code_simp
  have 5: "list_all (\<lambda>c. list_all (\<lambda>x. \<not> any_kw_in theft_keywords (lower (action_label x)))
                        (get_top_actions c)) ?a" by code_simp
  note t = backpack_in_first_two_of_ten_frames [OF 1 2 3 4 5]
  from t [THEN conjunct1]
    t [THEN conjunct2, THEN conjunct2, THEN conjunct2, THEN conjunct2, THEN conjunct1]
  show ?thesis by simp
qed

subsection \<open>Claim C6: when the theft probability is zero\<close>

text \<open>
  Claim C6, as stated, allows an action probability of 0. A single theft action of
  probability 0 and no detections give a theft-action list that is not empty and a theft
  probability of 0.
\<close>

theorem theft_probability_zero_counterexample:
  "list_all (\<lambda>x. 0 \<le> prob x \<and> prob x \<le> 1)
     (get_top_actions
        \<lparr>clip_index = Some 0, clip_type = Some ''middle'',
         top_actions = Some [\<lparr>action_label = ''stealing'', prob = 0\<rparr>]\<rparr>)
   \<and> theft_probability
        (analyze_theft_patterns []
           [\<lparr>clip_index = Some 0, clip_type = Some ''middle'',
             top_actions = Some [\<lparr>action_label = ''stealing'', prob = 0\<rparr>]\<rparr>]) = 0
   \<and> theft_actions
        (analyze_theft_patterns []
           [\<lparr>clip_index = Some 0, clip_type = Some ''middle'',
             top_actions = Some [\<lparr>action_label = ''stealing'', prob = 0\<rparr>]\<rparr>])
      = [\<lparr>ta_action = ''stealing'', ta_confidence = 0, ta_clip_index = Some 0\<rparr>]"
  by code_simp

text \<open>
  Claim C6, amended. For every detections/actions input whose action probabilities are
  all greater than 0, the theft probability is 0 if and only if both the
  valuable-disappearance list and the theft-action list are empty.
\<close>

theorem theft_probability_zero_iff:
  assumes "list_all (\<lambda>c. list_all (\<lambda>x. 0 < prob x) (get_top_actions c)) a"
  shows "theft_probability (analyze_theft_patterns d a) = 0
       \<longleftrightarrow> valuable_disappearances (analyze_theft_patterns d a) = []
           \<and> theft_actions (analyze_theft_patterns d a) = []"
proof -
  let ?ds = "valuable_disappearances (analyze_theft_patterns d a)"
  let ?ts = "theft_actions (analyze_theft_patterns d a)"
  have ds: "\<forall>x \<in> set ?ds. 0.6 \<le> suspicion_score x"
    using valuable_disappearances_score by fastforce
  have ts: "\<forall>t \<in> set ?ts. 0 < ta_confidence t"
  proof
    fix t assume "t \<in> set ?ts"
    from theft_actions_prob [OF this] assms show "0 < ta_confidence t"
      by (auto simp: list_all_iff)
  qed
  show ?thesis
  proof (cases "?ds = [] \<and> ?ts = []")
    case True
    then show ?thesis
      unfolding theft_probability_eq by (simp add: calculate_theft_probability_def)
  next
    case False
    then have "?ds \<noteq> [] \<or> ?ts \<noteq> []" by simp
    from calculate_theft_probability_pos [OF ds ts this] False show ?thesis
      unfolding theft_probability_eq by simp
  qed
qed

theorem theft_probability_zero_iff_witness:
  "list_all (\<lambda>c. list_all (\<lambda>x. 0 < prob x) (get_top_actions c))
     [\<lparr>clip_index = Some 0, clip_type = Some ''middle'',
       top_actions = Some [\<lparr>action_label = ''Stealing a bike'', prob = 0.001\<rparr>,
                           \<lparr>action_label = ''riding a bike'', prob = 0.6\<rparr>]\<rparr>]
   \<and> theft_actions
        (analyze_theft_patterns []
           [\<lparr>clip_index = Some 0, clip_type = Some ''middle'',
             top_actions = Some [\<lparr>action_label = ''Stealing a bike'', prob = 0.001\<rparr>,
                                 \<lparr>action_label = ''riding a bike'', prob = 0.6\<rparr>]\<rparr>]) \<noteq> []
   \<and> theft_probability
        (analyze_theft_patterns []
           [\<lparr>clip_index = Some 0, clip_type = Some ''middle'',
             top_actions = Some [\<lparr>action_label = ''Stealing a bike'', prob = 0.001\<rparr>,
                                 \<lparr>action_label = ''riding a bike'', prob = 0.6\<rparr>]\<rparr>]) \<noteq> 0"
  (is "?h \<and> theft_actions (analyze_theft_patterns [] ?a) \<noteq> [] \<and> _")
proof -
  have h: ?h by code_simp
  have ne: "theft_actions (analyze_theft_patterns [] ?a) \<noteq> []" by code_simp
  from theft_probability_zero_iff [OF h, of "[]"] h ne show ?thesis by blast
qed

subsection \<open>Claim C2: the weapon threat level\<close>

lemma lt_inf_foldl_min_inf:
  "lt_inf (foldl (\<lambda>m p. min_inf m (g p)) m0 ps) t
     \<longleftrightarrow> lt_inf m0 t \<or> (\<exists>p \<in> set ps. g p < t)"
proof (induction ps arbitrary: m0)
  case Nil
  show ?case by simp
next
  case (Cons p ps)
  show ?case
    by (cases m0) (auto simp: Cons.IH min_less_iff_disj)
qed

lemma lt_inf_min_distance_to:
  "lt_inf (min_distance_to ps w) t
     \<longleftrightarrow> (\<exists>p \<in> set ps. calculate_bbox_distance (bbox w) (bbox p) < t)"
  by (simp add: min_distance_to_def lt_inf_foldl_min_inf)

lemma proximity_of_within:
  "(\<exists>x \<in> set (proximity_of f). lt_inf (distance x) t)
     \<longleftrightarrow> (\<exists>w \<in> set (frame_weapons f). \<exists>p \<in> set (frame_persons f).
            calculate_bbox_distance (bbox w) (bbox p) < t)"
  by (auto simp: proximity_of_def Let_def lt_inf_min_distance_to)

lemma proximity_within:
  "(\<exists>x \<in> set (concat (map proximity_of d)). lt_inf (distance x) t) \<longleftrightarrow> pair_within d t"
  unfolding pair_within_def using proximity_of_within by auto

lemma weapon_actions_of_empty: "weapon_actions_of a = [] \<longleftrightarrow> \<not> has_weapon_action a"
  by (auto simp: weapon_actions_of_def has_weapon_action_def clip_actions_def filter_empty_conv)

lemma length_weapon_frames:
  "length (concat (map weapon_frames_of d)) = weapon_frame_count d"
  by (induction d) (simp_all add: weapon_frame_count_def weapon_frames_of_def Let_def)

lemma filter_length_pos: "0 < length (filter P xs) \<longleftrightarrow> (\<exists>x \<in> set xs. P x)"
  by (induction xs) auto

lemma sqrt_less_iff:
  assumes "0 < t"
  shows "sqrt x < t \<longleftrightarrow> x < t\<^sup>2"
proof -
  have "sqrt x < sqrt (t\<^sup>2) \<longleftrightarrow> x < t\<^sup>2" by (rule real_sqrt_less_iff)
  with assms show ?thesis by simp
qed

text \<open>
  Claim C2, as stated, gives "critical" to an input whose actions contain a weapon action
  and whose frames contain no weapon object. The code returns "none" there: the threat
  level is "none" as soon as no frame shows a weapon, whatever the actions are.
\<close>

theorem weapon_action_without_weapon_counterexample:
  "has_weapon_action
     [\<lparr>clip_index = Some 0, clip_type = Some ''middle'',
       top_actions = Some [\<lparr>action_label = ''shooting goal (soccer)'', prob = 0.9\<rparr>]\<rparr>]
   \<and> weapon_frame_count
        [\<lparr>frame = Some ''f0.jpg'', frame_index = Some 0,
          objects = Some
            [\<lparr>label = ''person'', conf = 0.9, bbox = \<lparr>x1 = 0, y1 = 0, x2 = 10, y2 = 30\<rparr>\<rparr>]\<rparr>] = 0
   \<and> threat_level
        (analyze_weapon_threat
           [\<lparr>frame = Some ''f0.jpg'', frame_index = Some 0,
             objects = Some
               [\<lparr>label = ''person'', conf = 0.9, bbox = \<lparr>x1 = 0, y1 = 0, x2 = 10, y2 = 30\<rparr>\<rparr>]\<rparr>]
           [\<lparr>clip_index = Some 0, clip_type = Some ''middle'',
             top_actions = Some [\<lparr>action_label = ''shooting goal (soccer)'', prob = 0.9\<rparr>]\<rparr>])
      = ''none''"
  (is "has_weapon_action ?a \<and> weapon_frame_count ?d = 0 \<and> _")
proof -
  have a: "has_weapon_action ?a"
    unfolding has_weapon_action_def by code_simp
  have n: "weapon_frame_count ?d = 0" by code_simp
  have "threat_level (analyze_weapon_threat ?d ?a) = ''none''"
    unfolding threat_level_eq length_weapon_frames n
    by (simp add: calculate_threat_level_def)
  with a n show ?thesis by blast
qed

text \<open>
  Claim C2, amended. For every detections/actions input the threat level is "none" if
  no frame shows a weapon. Otherwise it is "critical" if some weapon and person of one
  frame have box centres less than 300 apart or some action matches a weapon keyword;
  else "high" if some weapon and person of one frame are less than 500 apart or more
  than 2 frames show a weapon; else "medium".
\<close>

theorem threat_level_rule:
  "threat_level (analyze_weapon_threat d a) =
     (if weapon_frame_count d = 0 then ''none''
      else if pair_within d 300 \<or> has_weapon_action a then ''critical''
      else if pair_within d 500 \<or> weapon_frame_count d > 2 then ''high''
      else ''medium'')"
proof -
  let ?prox = "concat (map proximity_of d)"
  have close: "0 < length (filter (\<lambda>p. lt_inf (distance p) 300) ?prox) \<longleftrightarrow> pair_within d 300"
    by (simp only: filter_length_pos proximity_within)
  have moderate: "0 < length (filter (\<lambda>p. lt_inf (distance p) 500) ?prox) \<longleftrightarrow> pair_within d 500"
    by (simp only: filter_length_pos proximity_within)
  have acts: "0 < length (weapon_actions_of a) \<longleftrightarrow> has_weapon_action a"
    using weapon_actions_of_empty [of a] by simp
  show ?thesis
    unfolding threat_level_eq length_weapon_frames calculate_threat_level_def Let_def
      close moderate acts
    by simp
qed

theorem threat_level_rule_witness:
  "pair_within
     [\<lparr>frame = Some ''f0.jpg'', frame_index = Some 0,
       objects = Some
         [\<lparr>label = ''knife'', conf = 0.5, bbox = \<lparr>x1 = 0, y1 = 0, x2 = 10, y2 = 10\<rparr>\<rparr>,
          \<lparr>label = ''person'', conf = 0.9, bbox = \<lparr>x1 = 50, y1 = 0, x2 = 60, y2 = 10\<rparr>\<rparr>]\<rparr>] 300
   \<and> threat_level
        (analyze_weapon_threat
           [\<lparr>frame = Some ''f0.jpg'', frame_index = Some 0,
             objects = Some
               [\<lparr>label = ''knife'', conf = 0.5, bbox = \<lparr>x1 = 0, y1 = 0, x2 = 10, y2 = 10\<rparr>\<rparr>,
                \<lparr>label = ''person'', conf = 0.9, bbox = \<lparr>x1 = 50, y1 = 0, x2 = 60, y2 = 10\<rparr>\<rparr>]\<rparr>]
           [])
      = ''critical''"
  (is "pair_within ?d 300 \<and> _")
proof -
  have fw: "map frame_weapons ?d
      = [[\<lparr>label = ''knife'', conf = 0.5, bbox = \<lparr>x1 = 0, y1 = 0, x2 = 10, y2 = 10\<rparr>\<rparr>]]"
    by code_simp
  have fp: "map frame_persons ?d
      = [[\<lparr>label = ''person'', conf = 0.9, bbox = \<lparr>x1 = 50, y1 = 0, x2 = 60, y2 = 10\<rparr>\<rparr>]]"
    by code_simp
  have n: "weapon_frame_count ?d = 1" by code_simp
  have pw: "pair_within ?d 300"
    using fw fp by (simp add: pair_within_def calculate_bbox_distance_def sqrt_less_iff)
  from threat_level_rule [of ?d "[]"] n pw show ?thesis by simp
qed

subsection \<open>Claim C4: too few frames\<close>

lemma motion_loop_scores:
  "length (fst (motion_loop imread ms xs prev scores sudden))
     = length scores
       + (let r = length (filter (\<lambda>p. imread p \<noteq> None) (map snd xs))
          in case prev of None \<Rightarrow> r - 1 | Some previous \<Rightarrow> r)"
proof (induction xs arbitrary: prev scores sudden)
  case Nil
  show ?case by (simp split: option.split)
next
  case (Cons x xs)
  obtain idx p where x: "x = (idx, p)" by (cases x)
  show ?case
    unfolding x
    by (cases "imread p"; cases prev) (simp_all add: Cons.IH Let_def split: option.split)
qed

lemma map_snd_enumerate: "map snd (enumerate n xs) = xs"
  by (induction xs arbitrary: n) simp_all

lemma analyzed_iff:
  "analyzed (analyze_motion_patterns imread ms frames)
     \<longleftrightarrow> 2 \<le> length (filter (\<lambda>p. imread p \<noteq> None) (take 50 frames))"
proof -
  let ?loop = "motion_loop imread ms (enumerate 0 (take 50 frames)) None [] []"
  let ?r = "length (filter (\<lambda>p. imread p \<noteq> None) (take 50 frames))"
  have len: "length (fst ?loop) = ?r - 1"
    by (simp add: motion_loop_scores map_snd_enumerate Let_def)
  have small: "?r \<le> length frames"
    by (rule order_trans [OF length_filter_le]) simp
  obtain scores sudden where loop: "?loop = (scores, sudden)" by (cases ?loop)
  with len have "scores = [] \<longleftrightarrow> ?r < 2" by auto
  with small loop show ?thesis
    by (auto simp: analyze_motion_patterns_def Let_def)
qed

text \<open>
  Claim C4, as stated, makes motion analysis answer "not analyzed" for every frame list
  shorter than 8. Its guard is at 2 frames: two readable frames are analysed.
\<close>

theorem motion_two_frames_counterexample:
  "length [0, 1 :: nat] < 8
   \<and> analyze_motion_patterns (\<lambda>p :: nat. Some p) (\<lambda>previous current :: nat. 12.5) [0, 1]
      = Analyzed
          \<lparr>average_motion = 12.5, max_motion = 12.5, motion_variance = 0,
           motion_pattern_of =
             \<lparr>category = ''low_activity'', crime_relevance = ''low'', mp_confidence = 0.40\<rparr>,
           sudden_movements = [], chase_sequences = [], frames_analyzed = 1\<rparr>
   \<and> analyzed
        (analyze_motion_patterns (\<lambda>p :: nat. Some p) (\<lambda>previous current :: nat. 12.5) [0, 1])"
  by code_simp

text \<open>
  Claim C4, amended. For every frame list with fewer than 8 frames,
  \<^verbatim>\<open>run_action_recognition\<close> returns its insufficient-frames result, the empty list of
  clips. \<^verbatim>\<open>analyze_motion_patterns\<close> returns the result "Insufficient frames" with
  \<^verbatim>\<open>analyzed=False\<close> for every frame list with fewer than 2 frames, and it returns
  \<^verbatim>\<open>analyzed=True\<close> exactly when at least two of the first 50 frames can be read.
  Neither raises.
\<close>

theorem insufficient_frames:
  "(length frames < 8 \<longrightarrow> run_action_recognition recognize_clips name frames = [])
   \<and> (length frames < 2 \<longrightarrow>
        analyze_motion_patterns imread ms frames = Not_Analyzed ''Insufficient frames'')
   \<and> (analyzed (analyze_motion_patterns imread ms frames)
        \<longleftrightarrow> 2 \<le> length (filter (\<lambda>p. imread p \<noteq> None) (take 50 frames)))"
proof (intro conjI impI)
  assume "length frames < 8"
  then show "run_action_recognition recognize_clips name frames = []"
    by (simp add: run_action_recognition_def Let_def)
next
  assume "length frames < 2"
  then show "analyze_motion_patterns imread ms frames = Not_Analyzed ''Insufficient frames''"
    by (simp add: analyze_motion_patterns_def)
next
  show "analyzed (analyze_motion_patterns imread ms frames)
        \<longleftrightarrow> 2 \<le> length (filter (\<lambda>p. imread p \<noteq> None) (take 50 frames))"
    by (rule analyzed_iff)
qed

theorem insufficient_frames_witness:
  "run_action_recognition
     (\<lambda>fs. [\<lparr>clip_index = Some 0, clip_type = Some ''middle'', top_actions = Some []\<rparr>])
     (\<lambda>p :: nat. p) [3, 1, 2, 0, 6, 5, 4] = []
   \<and> analyze_motion_patterns (\<lambda>p :: nat. Some p) (\<lambda>previous current :: nat. 12.5) [0]
      = Not_Analyzed ''Insufficient frames''
   \<and> \<not> analyzed
        (analyze_motion_patterns (\<lambda>p :: nat. if p = 0 then Some p else None)
           (\<lambda>previous current :: nat. 12.5) [0, 1, 2])"
  (is "?A \<and> ?B \<and> ?C")
proof -
  have a: ?A
    using insufficient_frames
      [of "[3, 1, 2, 0, 6, 5, 4]"
        "\<lambda>fs. [\<lparr>clip_index = Some 0, clip_type = Some ''middle'', top_actions = Some []\<rparr>]"
        "\<lambda>p :: nat. p" "\<lambda>p :: nat. Some p" "\<lambda>previous current :: nat. 12.5"]
    by simp
  have b: ?B
    using insufficient_frames
      [of "[0 :: nat]" "\<lambda>fs. []" "\<lambda>p :: nat. p" "\<lambda>p :: nat. Some p"
        "\<lambda>previous current :: nat. 12.5"]
    by simp
  have c: ?C
    using insufficient_frames
      [of "[0, 1, 2 :: nat]" "\<lambda>fs. []" "\<lambda>p :: nat. p"
        "\<lambda>p :: nat. if p = 0 then Some p else None" "\<lambda>previous current :: nat. 12.5"]
    by simp
  from a b c show ?thesis by blast
qed

subsection \<open>Claim C3: the detection filter\<close>




lemma nms_loop_subset: "set (nms_loop objs t order) \<subseteq> set order"
proof (induction objs t order rule: nms_loop.induct)
  case (1 objs t)
  show ?case by simp
next
  case (2 objs t i rest)
  then show ?case by auto
qed

lemma nms_loop_distinct: "distinct order \<Longrightarrow> distinct (nms_loop objs t order)"
proof (induction objs t order rule: nms_loop.induct)
  case (1 objs t)
  show ?case by simp
next
  case (2 objs t i rest)
  show ?case
  proof (cases "rest = []")
    case True
    then show ?thesis by simp
  next
    case False
    let ?keep = "filter (\<lambda>j. iou_le (bbox (objs ! i)) (bbox (objs ! j)) t) rest"
    from "2.prems" have "distinct ?keep" by simp
    with "2.IH" False have "distinct (nms_loop objs t ?keep)" by simp
    moreover from nms_loop_subset [of objs t ?keep] "2.prems"
    have "i \<notin> set (nms_loop objs t ?keep)" by auto
    ultimately show ?thesis using False by simp
  qed
qed









subsection \<open>Claim C8: chase sequences are the maximal runs of at least three scores\<close>

lemma chase_state_after_0:
  "chase_state_after scores 0
     = \<lparr>found = [], in_chase = False, chase_start = 0, chase_duration = 0\<rparr>"
  by (simp add: chase_state_after_def)

lemma chase_state_after_Suc:
  assumes "k < length scores"
  shows "chase_state_after scores (Suc k)
           = chase_step scores (chase_state_after scores k) (k, scores ! k)"
proof -
  from assms have "take (Suc k) scores = take k scores @ [scores ! k]"
    by (rule take_Suc_conv_app_nth)
  moreover from assms have "length (take k scores) = k" by simp
  ultimately have "enumerate 0 (take (Suc k) scores)
      = enumerate 0 (take k scores) @ [(k, scores ! k)]"
    by (simp add: enumerate_append_eq)
  then show ?thesis by (simp add: chase_state_after_def)
qed

lemma detect_chase_sequences_after:
  "detect_chase_sequences scores
     = close_chase scores (chase_state_after scores (length scores))"
  by (simp add: detect_chase_sequences_def chase_state_after_def)

lemma run_to_unique:
  assumes "run_to scores s d" and "run_to scores s' d'" and "s + d = s' + d'"
  shows "s = s' \<and> d = d'"
proof -
  have le: "s' \<le> s" if a: "run_to scores s d" and b: "run_to scores s' d'"
    and e: "s + d = s' + d'" for s d s' d'
  proof (rule ccontr)
    assume "\<not> s' \<le> s"
    then have lt: "s < s'" by simp
    from b have "0 < d'" by (simp add: run_to_def)
    with lt e have "s' - 1 \<in> {s..<s + d}" by auto
    with a have "scores ! (s' - 1) > 35" by (simp add: run_to_def)
    moreover from b lt have "\<not> scores ! (s' - 1) > 35" by (auto simp: run_to_def)
    ultimately show False by simp
  qed
  from le [OF assms] le [OF assms(2,1)] assms(3) show ?thesis by simp
qed

lemma runs_ending_at:
  assumes "in_chase st \<longleftrightarrow> 0 < k \<and> scores ! (k - 1) > 35"
    and "in_chase st \<longrightarrow>
            chase_start st + chase_duration st = k
            \<and> run_to scores (chase_start st) (chase_duration st)"
  shows "{(s, d). 3 \<le> d \<and> run_to scores s d \<and> s + d = k}
           = (if in_chase st \<and> chase_duration st \<ge> 3
              then {(chase_start st, chase_duration st)} else {})"
    (is "?L = ?R")
proof (cases "in_chase st")
  case True
  with assms(2) have r: "run_to scores (chase_start st) (chase_duration st)"
    and e: "chase_start st + chase_duration st = k" by simp_all
  have u: "s = chase_start st \<and> d = chase_duration st"
    if "run_to scores s d" and "s + d = k" for s d
    using run_to_unique [OF that(1) r] that(2) e by simp
  show ?thesis
  proof (cases "chase_duration st \<ge> 3")
    case long: True
    have "?L = {(chase_start st, chase_duration st)}"
    proof (rule set_eqI)
      fix p :: "nat \<times> nat"
      obtain s d where p: "p = (s, d)" by (cases p)
      show "p \<in> ?L \<longleftrightarrow> p \<in> {(chase_start st, chase_duration st)}"
      proof
        assume "p \<in> ?L"
        with p have "run_to scores s d" and "s + d = k" by simp_all
        from u [OF this] p show "p \<in> {(chase_start st, chase_duration st)}" by simp
      next
        assume "p \<in> {(chase_start st, chase_duration st)}"
        with p have "s = chase_start st" and "d = chase_duration st" by simp_all
        with r e long p show "p \<in> ?L" by simp
      qed
    qed
    with True long show ?thesis by simp
  next
    case short: False
    have "?L = {}"
    proof (rule set_eqI)
      fix p :: "nat \<times> nat"
      obtain s d where p: "p = (s, d)" by (cases p)
      have "p \<notin> ?L"
      proof
        assume "p \<in> ?L"
        with p have "run_to scores s d" and "s + d = k" and "3 \<le> d" by simp_all
        from u [OF this(1,2)] this(3) short show False by simp
      qed
      then show "p \<in> ?L \<longleftrightarrow> p \<in> {}" by simp
    qed
    with short show ?thesis by simp
  qed
next
  case False
  have no: "\<not> (run_to scores s d \<and> s + d = k)" for s d
  proof
    assume a: "run_to scores s d \<and> s + d = k"
    then have "0 < d" by (simp add: run_to_def)
    with a have "0 < k" and "k - 1 \<in> {s..<s + d}" by auto
    with a have "0 < k \<and> scores ! (k - 1) > 35" by (simp add: run_to_def)
    with assms(1) False show False by simp
  qed
  have "?L = {}"
  proof (rule set_eqI)
    fix p :: "nat \<times> nat"
    obtain s d where p: "p = (s, d)" by (cases p)
    from no [of s d] p show "p \<in> ?L \<longleftrightarrow> p \<in> {}" by simp
  qed
  with False show ?thesis by simp
qed

lemma chase_step_hot:
  assumes "x > 35"
  shows "found (chase_step scores st (k, x)) = found st"
    and "in_chase (chase_step scores st (k, x))"
    and "chase_start (chase_step scores st (k, x)) = (if in_chase st then chase_start st else k)"
    and "chase_duration (chase_step scores st (k, x))
           = (if in_chase st then chase_duration st + 1 else 1)"
  using assms by (simp_all add: chase_step_def)

lemma chase_step_cold:
  assumes "\<not> x > 35"
  shows "found (chase_step scores st (k, x)) = close_chase scores st"
    and "\<not> in_chase (chase_step scores st (k, x))"
  using assms by (simp_all add: chase_step_def)

lemma span_close_chase:
  "span ` set (close_chase scores st)
     = span ` set (found st)
       \<union> (if in_chase st \<and> chase_duration st \<ge> 3
          then {(chase_start st, chase_duration st)} else {})"
  by (simp add: close_chase_def span_def chase_entry_def)

lemma chase_inv_0: "chase_inv scores 0 (chase_state_after scores 0)"
  by (simp add: chase_inv_def chase_state_after_0)

lemma chase_inv_hot:
  assumes inv: "chase_inv scores k st" and hot: "scores ! k > 35"
  shows "chase_inv scores (Suc k) (chase_step scores st (k, scores ! k))"
proof -
  let ?st = "chase_step scores st (k, scores ! k)"
  note step = chase_step_hot [OF hot, of scores st k]
  from inv have i1: "span ` set (found st)
        = {(s, d). 3 \<le> d \<and> run_to scores s d \<and> s + d < k \<and> \<not> scores ! (s + d) > 35}"
    and i2: "in_chase st \<longleftrightarrow> 0 < k \<and> scores ! (k - 1) > 35"
    and i3: "in_chase st \<longrightarrow> chase_start st + chase_duration st = k
            \<and> run_to scores (chase_start st) (chase_duration st)"
    and i4: "sorted_wrt (<) (map start_frame (found st))"
    and i5: "\<forall>c \<in> set (found st). c = chase_entry scores (start_frame c) (duration_frames c)"
    by (simp_all add: chase_inv_def)
  have "(s + d < Suc k \<and> \<not> scores ! (s + d) > 35) \<longleftrightarrow> (s + d < k \<and> \<not> scores ! (s + d) > 35)"
    for s d
  proof (cases "s + d = k")
    case True
    with hot show ?thesis by simp
  next
    case False
    then show ?thesis by auto
  qed
  then have "{(s, d). 3 \<le> d \<and> run_to scores s d \<and> s + d < Suc k \<and> \<not> scores ! (s + d) > 35}
      = {(s, d). 3 \<le> d \<and> run_to scores s d \<and> s + d < k \<and> \<not> scores ! (s + d) > 35}"
    by simp
  with i1 step(1) have n1: "span ` set (found ?st)
        = {(s, d). 3 \<le> d \<and> run_to scores s d \<and> s + d < Suc k \<and> \<not> scores ! (s + d) > 35}"
    by simp
  from step(2) hot have n2: "in_chase ?st \<longleftrightarrow> 0 < Suc k \<and> scores ! (Suc k - 1) > 35"
    by simp
  have n3: "chase_start ?st + chase_duration ?st = Suc k
            \<and> run_to scores (chase_start ?st) (chase_duration ?st)"
  proof (cases "in_chase st")
    case True
    with i3 have e: "chase_start st + chase_duration st = k"
      and r: "run_to scores (chase_start st) (chase_duration st)" by simp_all
    from r hot e have "run_to scores (chase_start st) (chase_duration st + 1)"
      unfolding run_to_def by (auto simp: less_Suc_eq)
    with True e step(3,4) show ?thesis by simp
  next
    case False
    with i2 have "k = 0 \<or> \<not> scores ! (k - 1) > 35" by auto
    with hot have "run_to scores k 1" by (simp add: run_to_def)
    with False step(3,4) show ?thesis by simp
  qed
  from i4 step(1) have n4: "sorted_wrt (<) (map start_frame (found ?st))" by simp
  from i5 step(1) have n5:
    "\<forall>c \<in> set (found ?st). c = chase_entry scores (start_frame c) (duration_frames c)"
    by simp
  from n1 n2 n3 n4 n5 show ?thesis
    unfolding chase_inv_def by blast
qed

lemma close_chase_ordered:
  assumes inv: "chase_inv scores k st"
  shows "sorted_wrt (<) (map start_frame (close_chase scores st))
       \<and> (\<forall>c \<in> set (close_chase scores st).
             c = chase_entry scores (start_frame c) (duration_frames c))"
proof -
  from inv have i1: "span ` set (found st)
        = {(s, d). 3 \<le> d \<and> run_to scores s d \<and> s + d < k \<and> \<not> scores ! (s + d) > 35}"
    and i3: "in_chase st \<longrightarrow> chase_start st + chase_duration st = k
            \<and> run_to scores (chase_start st) (chase_duration st)"
    and i4: "sorted_wrt (<) (map start_frame (found st))"
    and i5: "\<forall>c \<in> set (found st). c = chase_entry scores (start_frame c) (duration_frames c)"
    by (simp_all add: chase_inv_def)
  show ?thesis
  proof (cases "in_chase st \<and> chase_duration st \<ge> 3")
    case False
    then have "close_chase scores st = found st"
      unfolding close_chase_def by (rule if_not_P)
    with i4 i5 show ?thesis by simp
  next
    case True
    with i3 have e: "chase_start st + chase_duration st = k"
      and r: "run_to scores (chase_start st) (chase_duration st)" by simp_all
    have before: "start_frame c < chase_start st" if c: "c \<in> set (found st)" for c
    proof (rule ccontr)
      assume "\<not> start_frame c < chase_start st"
      then have ge: "chase_start st \<le> start_frame c" by simp
      from c have "span c \<in> span ` set (found st)" by (rule imageI)
      then have "start_frame c + duration_frames c < k"
        and "\<not> scores ! (start_frame c + duration_frames c) > 35"
        unfolding i1 by (simp_all add: span_def)
      moreover from this(1) ge e
      have "start_frame c + duration_frames c
              \<in> {chase_start st..<chase_start st + chase_duration st}"
        by simp
      with r have "scores ! (start_frame c + duration_frames c) > 35"
        unfolding run_to_def by blast
      ultimately show False by simp
    qed
    from True have f: "close_chase scores st
        = found st @ [chase_entry scores (chase_start st) (chase_duration st)]"
      by (simp add: close_chase_def)
    have "sorted_wrt (<) (map start_frame (close_chase scores st))"
      unfolding f using i4 before
      by (simp add: sorted_wrt_append chase_entry_def)
    moreover have "\<forall>c \<in> set (close_chase scores st).
        c = chase_entry scores (start_frame c) (duration_frames c)"
      unfolding f using i5 by (simp add: chase_entry_def)
    ultimately show ?thesis by simp
  qed
qed

lemma span_close_chase_inv:
  assumes inv: "chase_inv scores k st"
  shows "span ` set (close_chase scores st)
     = {(s, d). 3 \<le> d \<and> run_to scores s d \<and> s + d < k \<and> \<not> scores ! (s + d) > 35}
       \<union> {(s, d). 3 \<le> d \<and> run_to scores s d \<and> s + d = k}"
proof -
  from inv have i1: "span ` set (found st)
        = {(s, d). 3 \<le> d \<and> run_to scores s d \<and> s + d < k \<and> \<not> scores ! (s + d) > 35}"
    and i2: "in_chase st \<longleftrightarrow> 0 < k \<and> scores ! (k - 1) > 35"
    and i3: "in_chase st \<longrightarrow> chase_start st + chase_duration st = k
            \<and> run_to scores (chase_start st) (chase_duration st)"
    by (simp_all add: chase_inv_def)
  show ?thesis
    by (simp only: span_close_chase i1 runs_ending_at [OF i2 i3])
qed

lemma chase_inv_cold:
  assumes inv: "chase_inv scores k st" and cold: "\<not> scores ! k > 35"
  shows "chase_inv scores (Suc k) (chase_step scores st (k, scores ! k))"
proof -
  let ?st = "chase_step scores st (k, scores ! k)"
  note step = chase_step_cold [OF cold, of scores st k]
  have split: "(s + d < Suc k \<and> \<not> scores ! (s + d) > 35)
      \<longleftrightarrow> (s + d < k \<and> \<not> scores ! (s + d) > 35) \<or> s + d = k" for s d
    using cold by (auto simp: less_Suc_eq)
  have "{(s, d). 3 \<le> d \<and> run_to scores s d \<and> s + d < Suc k \<and> \<not> scores ! (s + d) > 35}
      = {(s, d). 3 \<le> d \<and> run_to scores s d \<and> s + d < k \<and> \<not> scores ! (s + d) > 35}
        \<union> {(s, d). 3 \<le> d \<and> run_to scores s d \<and> s + d = k}"
    unfolding split by blast
  also have "\<dots> = span ` set (found ?st)"
    by (simp only: step(1) span_close_chase_inv [OF inv])
  finally have n1: "span ` set (found ?st)
        = {(s, d). 3 \<le> d \<and> run_to scores s d \<and> s + d < Suc k \<and> \<not> scores ! (s + d) > 35}"
    by (rule sym)
  from step(2) cold have n2: "in_chase ?st \<longleftrightarrow> 0 < Suc k \<and> scores ! (Suc k - 1) > 35"
    by simp
  from step(2) have n3: "in_chase ?st \<longrightarrow> chase_start ?st + chase_duration ?st = Suc k
            \<and> run_to scores (chase_start ?st) (chase_duration ?st)"
    by simp
  from close_chase_ordered [OF inv] step(1)
  have n45: "sorted_wrt (<) (map start_frame (found ?st))
      \<and> (\<forall>c \<in> set (found ?st). c = chase_entry scores (start_frame c) (duration_frames c))"
    by simp
  from n1 n2 n3 n45 show ?thesis
    unfolding chase_inv_def by blast
qed

lemma chase_inv_after:
  assumes "k \<le> length scores"
  shows "chase_inv scores k (chase_state_after scores k)"
  using assms
proof (induction k)
  case 0
  show ?case by (rule chase_inv_0)
next
  case (Suc k)
  then have lt: "k < length scores" and inv: "chase_inv scores k (chase_state_after scores k)"
    by simp_all
  show ?case
    unfolding chase_state_after_Suc [OF lt]
  proof (cases "scores ! k > 35")
    case True
    with inv show "chase_inv scores (Suc k)
        (chase_step scores (chase_state_after scores k) (k, scores ! k))"
      by (rule chase_inv_hot)
  next
    case False
    with inv show "chase_inv scores (Suc k)
        (chase_step scores (chase_state_after scores k) (k, scores ! k))"
      by (rule chase_inv_cold)
  qed
qed

lemma sum_list_slice:
  fixes xs :: "real list"
  assumes "s + d \<le> length xs"
  shows "sum_list (take d (drop s xs)) = (\<Sum>i = s..<s + d. xs ! i)"
proof -
  from assms have len: "length (take d (drop s xs)) = d" by simp
  have "sum_list (take d (drop s xs)) = (\<Sum>i = 0..<d. take d (drop s xs) ! i)"
    using sum_list_sum_nth [of "take d (drop s xs)"] len by simp
  also have "\<dots> = (\<Sum>i = 0..<d. xs ! (s + i))"
    using assms by (intro sum.cong) simp_all
  also have "\<dots> = (\<Sum>i = s..<s + d. xs ! i)"
    using sum.shift_bounds_nat_ivl [of "\<lambda>i. xs ! i" 0 s d] by (simp add: add.commute)
  finally show ?thesis .
qed

lemma maximal_runs_split:
  "{(s, d). is_maximal_run scores s d \<and> 3 \<le> d}
     = {(s, d). 3 \<le> d \<and> run_to scores s d \<and> s + d < length scores
                \<and> \<not> scores ! (s + d) > 35}
       \<union> {(s, d). 3 \<le> d \<and> run_to scores s d \<and> s + d = length scores}"
  unfolding is_maximal_run_def run_to_def by auto

text \<open>
  Claim C8. For every list of motion scores, the chase sequences found are exactly the
  maximal runs of at least 3 consecutive scores above 35, one sequence for each run and
  in the order of the runs (a run that reaches the end of the list included); each
  records the start index of its run, the length of the run, and the mean of the scores
  in the run.
\<close>

theorem chase_sequences_are_maximal_runs:
  "(\<lambda>c. (start_frame c, duration_frames c)) ` set (detect_chase_sequences scores)
     = {(s, d). is_maximal_run scores s d \<and> 3 \<le> d}
   \<and> sorted_wrt (<) (map start_frame (detect_chase_sequences scores))
   \<and> length (detect_chase_sequences scores) = card {(s, d). is_maximal_run scores s d \<and> 3 \<le> d}
   \<and> (\<forall>c \<in> set (detect_chase_sequences scores).
         avg_intensity c
           = (\<Sum>i = start_frame c..<start_frame c + duration_frames c. scores ! i)
             / real (duration_frames c))"
proof -
  let ?r = "detect_chase_sequences scores"
  let ?st = "chase_state_after scores (length scores)"
  have inv: "chase_inv scores (length scores) ?st"
    by (rule chase_inv_after) simp
  have r: "?r = close_chase scores ?st"
    by (rule detect_chase_sequences_after)
  have spans: "span ` set ?r = {(s, d). is_maximal_run scores s d \<and> 3 \<le> d}"
    unfolding r by (simp only: span_close_chase_inv [OF inv] maximal_runs_split)
  from close_chase_ordered [OF inv]
  have ordered: "sorted_wrt (<) (map start_frame ?r)"
    and entries: "\<forall>c \<in> set ?r. c = chase_entry scores (start_frame c) (duration_frames c)"
    unfolding r by simp_all
  from ordered have "distinct (map start_frame ?r)"
    by (simp add: strict_sorted_iff)
  then have "distinct (map span ?r)"
    by (simp add: distinct_map inj_on_def span_def)
  then have "card (span ` set ?r) = length ?r"
    using distinct_card [of "map span ?r"] by simp
  with spans have count: "length ?r = card {(s, d). is_maximal_run scores s d \<and> 3 \<le> d}"
    by simp
  have avg: "\<forall>c \<in> set ?r.
      avg_intensity c
        = (\<Sum>i = start_frame c..<start_frame c + duration_frames c. scores ! i)
          / real (duration_frames c)"
  proof
    fix c assume c: "c \<in> set ?r"
    then have "span c \<in> span ` set ?r" by (rule imageI)
    with spans have "is_maximal_run scores (start_frame c) (duration_frames c)"
      by (simp add: span_def)
    then have le: "start_frame c + duration_frames c \<le> length scores"
      by (simp add: is_maximal_run_def)
    from entries c have "c = chase_entry scores (start_frame c) (duration_frames c)" by blast
    then have "avg_intensity c
        = mean (take (duration_frames c) (drop (start_frame c) scores))"
      by (metis chase_sequence.select_convs(3) chase_entry_def)
    also from le have "\<dots> = (\<Sum>i = start_frame c..<start_frame c + duration_frames c. scores ! i)
          / real (duration_frames c)"
      by (simp add: mean_def sum_list_slice)
    finally show "avg_intensity c
        = (\<Sum>i = start_frame c..<start_frame c + duration_frames c. scores ! i)
          / real (duration_frames c)" .
  qed
  have eq: "span = (\<lambda>c. (start_frame c, duration_frames c))"
    by (rule ext) (simp add: span_def)
  note spans' = spans [unfolded eq]
  show ?thesis
    by (intro conjI) (rule spans' ordered count avg)+
qed

theorem chase_sequences_are_maximal_runs_witness:
  "detect_chase_sequences [40, 40, 40, 1, 40, 40, 2, 36, 37, 38, 39]
     = [\<lparr>start_frame = 0, duration_frames = 3, avg_intensity = 40\<rparr>,
        \<lparr>start_frame = 7, duration_frames = 4, avg_intensity = 37.5\<rparr>]
   \<and> {(s, d). is_maximal_run [40, 40, 40, 1, 40, 40, 2, 36, 37, 38, 39] s d \<and> 3 \<le> d}
       = {(0, 3), (7, 4)}
   \<and> is_maximal_run [40, 40, 40, 1, 40, 40, 2, 36, 37, 38, 39] 4 2"
  (is "detect_chase_sequences ?L = ?R \<and> ?S \<and> ?M")
proof -
  have r: "detect_chase_sequences ?L = ?R" by code_simp
  have m: ?M by code_simp
  from chase_sequences_are_maximal_runs [of ?L, unfolded r, THEN conjunct1]
  have s: ?S by simp
  from r s m show ?thesis by blast
qed

end
